theory Spec2Isabelle
  imports Main
begin

section \<open>Strings\<close>

text \<open>
  Text is a list of 8-bit characters (Latin-1 code points). The string methods the
  scraper calls are written out: \<open>str.strip\<close>, \<open>str.lower\<close>, \<open>str.upper\<close>, the
  substring test \<open>p in s\<close>, \<open>str.split(sep)\<close>, the first field of \<open>str.split()\<close>
  and \<open>int(s)\<close>.
\<close>

definition is_space :: "char \<Rightarrow> bool" where
  "is_space c =
     (let n = (of_char c :: nat)
      in (9 \<le> n \<and> n \<le> 13) \<or> (28 \<le> n \<and> n \<le> 32) \<or> n = 133 \<or> n = 160)"

definition lstrip :: "string \<Rightarrow> string" where
  "lstrip s = dropWhile is_space s"

definition strip :: "string \<Rightarrow> string" where
  "strip s = rev (dropWhile is_space (rev (dropWhile is_space s)))"

definition is_upper :: "char \<Rightarrow> bool" where
  "is_upper c = (let n = (of_char c :: nat) in 65 \<le> n \<and> n \<le> 90)"

definition is_lower :: "char \<Rightarrow> bool" where
  "is_lower c = (let n = (of_char c :: nat) in 97 \<le> n \<and> n \<le> 122)"

definition is_alpha :: "char \<Rightarrow> bool" where
  "is_alpha c = (is_upper c \<or> is_lower c)"

definition is_digit :: "char \<Rightarrow> bool" where
  "is_digit c = (let n = (of_char c :: nat) in 48 \<le> n \<and> n \<le> 57)"

definition lower_char :: "char \<Rightarrow> char" where
  "lower_char c =
     (case map_of (zip ''ABCDEFGHIJKLMNOPQRSTUVWXYZ'' ''abcdefghijklmnopqrstuvwxyz'') c of
        None \<Rightarrow> c
      | Some d \<Rightarrow> d)"

definition upper_char :: "char \<Rightarrow> char" where
  "upper_char c =
     (case map_of (zip ''abcdefghijklmnopqrstuvwxyz'' ''ABCDEFGHIJKLMNOPQRSTUVWXYZ'') c of
        None \<Rightarrow> c
      | Some d \<Rightarrow> d)"

definition lower :: "string \<Rightarrow> string" where
  "lower s = map lower_char s"

definition upper :: "string \<Rightarrow> string" where
  "upper s = map upper_char s"

fun starts_with :: "string \<Rightarrow> string \<Rightarrow> bool" where
  "starts_with [] s = True"
| "starts_with (p # ps) [] = False"
| "starts_with (p # ps) (c # cs) = (p = c \<and> starts_with ps cs)"

text \<open>\<open>contains p s\<close> is Python's \<open>p in s\<close> on strings.\<close>

fun contains :: "string \<Rightarrow> string \<Rightarrow> bool" where
  "contains p [] = (p = [])"
| "contains p (c # cs) = (starts_with p (c # cs) \<or> contains p cs)"

text \<open>\<open>split_on d s\<close> is \<open>s.split(d)\<close> for a one-character separator.\<close>

fun split_on :: "char \<Rightarrow> string \<Rightarrow> string list" where
  "split_on d [] = [[]]"
| "split_on d (c # cs) =
     (if c = d then [] # split_on d cs
      else (case split_on d cs of [] \<Rightarrow> [[c]] | w # ws \<Rightarrow> (c # w) # ws))"

text \<open>\<open>first_word s\<close> is \<open>s.split()[0]\<close>, for a string with a character that is not white space.\<close>

definition first_word :: "string \<Rightarrow> string" where
  "first_word s = takeWhile (\<lambda>c. \<not> is_space c) (dropWhile is_space s)"

datatype py_error = ValueError | KeyError

text \<open>
  \<open>py_int s\<close> is \<open>int(s)\<close>: white space around, an optional sign, then decimal digits,
  where single underscores may stand between digits. Anything else raises ValueError.
\<close>

fun digits_ok :: "bool \<Rightarrow> string \<Rightarrow> bool" where
  "digits_ok after_digit [] = after_digit"
| "digits_ok after_digit (c # cs) =
     (if is_digit c then digits_ok True cs
      else if c = CHR ''_'' then after_digit \<and> digits_ok False cs
      else False)"

definition digits_value :: "string \<Rightarrow> int" where
  "digits_value s =
     foldl (\<lambda>acc c. 10 * acc + (int (of_char c) - 48)) 0 (filter is_digit s)"

definition py_int :: "string \<Rightarrow> py_error + int" where
  "py_int s =
     (case strip s of
        [] \<Rightarrow> Inl ValueError
      | c # cs \<Rightarrow>
          (if c = CHR ''-'' then (if digits_ok False cs then Inr (- digits_value cs) else Inl ValueError)
           else if c = CHR ''+'' then (if digits_ok False cs then Inr (digits_value cs) else Inl ValueError)
           else (if digits_ok False (c # cs) then Inr (digits_value (c # cs)) else Inl ValueError)))"

text \<open>
  \<open>float(s) >= 20.0\<close> is a parameter of the model, since it rests on binary floating
  point: a \<open>float_test\<close> gives None where \<open>float(s)\<close> raises ValueError and otherwise the
  truth value of the comparison.
\<close>

type_synonym float_test = "string \<Rightarrow> bool option"

section \<open>The match data\<close>

datatype team_key = Team1 | Team2

text \<open>A team's dictionary: every key but the ones written is absent (None).\<close>

record team_data =
  t_name :: "string option"
  t_score :: "string option"
  t_runs :: "string option"
  t_wickets :: "string option"
  t_overs :: "string option"
  t_innings_complete :: "bool option"
  t_won :: "bool option"

record match_info_data =
  title :: string
  venue :: string
  date :: string
  status :: string
  result :: string
  match_id :: "string option"
  tournament_id :: "string option"
  player_of_match :: "string option"
  innings_status :: "string option"

record batting_entry =
  bat_name :: string
  bat_runs :: string
  bat_balls :: string
  bat_fours :: string
  bat_sixes :: string
  bat_strike_rate :: string
  bat_dismissal :: string

text \<open>\<open>bowl_inferred\<close> is True for the placeholder entry, which alone has the key \<open>inferred\<close>.\<close>

record bowler_data =
  bowl_name :: string
  bowl_overs :: string
  bowl_maidens :: string
  bowl_runs :: string
  bowl_wickets :: string
  bowl_economy :: string
  bowl_inferred :: bool

datatype commentary_entry =
    General (c_time: string) (c_text: string)
  | Ball (c_over: string) (c_result: string) (c_text: string)

type_synonym teams_map = "team_key \<rightharpoonup> team_data"
type_synonym batting_map = "team_key \<rightharpoonup> batting_entry list"
type_synonym bowling_map = "team_key \<rightharpoonup> bowler_data list"

record match_state =
  match_info :: match_info_data
  teams :: teams_map
  batting_stats :: batting_map
  bowling_stats :: bowling_map
  commentary :: "commentary_entry list"
  last_updated :: string

section \<open>Calls and exceptions\<close>

text \<open>
  A block of statements, and a call of a method, gives the exception that leaves it, None
  when it ends without one, and the match data as it leaves them. \<open>try_except\<close> is a try
  statement with the handler \<open>except Exception\<close>, which logs the exception: ValueError
  and KeyError are both caught by it, so whatever the block raises, nothing leaves the
  statement, and the data stay as the block has left them. \<open>and_then\<close> is the next
  statement of a block: it is run when the statements before it have raised nothing.
\<close>

definition try_except :: "py_error option \<times> 's \<Rightarrow> py_error option \<times> 's" where
  "try_except block =
     (case block of
        (None, st) \<Rightarrow> (None, st)
      | (Some e, st) \<Rightarrow> (None, st))"

definition and_then ::
  "py_error option \<times> 's \<Rightarrow> ('s \<Rightarrow> py_error option \<times> 's) \<Rightarrow> py_error option \<times> 's" where
  "and_then block next_statement =
     (case block of
        (None, st) \<Rightarrow> next_statement st
      | (Some e, st) \<Rightarrow> (Some e, st))"

section \<open>The document\<close>

text \<open>
  The parsed document is what the selector queries of the scraper return on it: the
  element found by each \<open>select_one\<close> (None when there is none) and the elements found
  by each \<open>select\<close>, with the texts, classes and attributes the scraper reads. A tag is
  compared structurally by the parser library, so a row carries its markup as its identity.
\<close>

type_synonym tag = string

record elem =
  elem_text :: string
  elem_classes :: "string list"

record team_section =
  name_elem :: "elem option"
  score_elem :: "elem option"

record batting_cell =
  cell_text :: string
  cell_link :: "string option"
  cell_classes :: "string list"
  cell_strike :: bool

text \<open>
  \<open>row_footnote\<close> is the text of the element \<open>.ckt_row_subl, .b_footnote\<close> of the next
  sibling row, when there is a next row and it has one.
\<close>

record batting_row =
  row_tag :: tag
  row_name_cell :: "batting_cell option"
  row_cells :: "string list"
  row_footnote :: "string option"

record batting_table =
  bat_header :: "string option"
  bat_rows :: "batting_row list"

text \<open>Texts of a bowling row are those of \<open>get_text(strip=True)\<close>, but \<open>brow_text\<close>, the row's \<open>.text\<close>.\<close>

record bowling_cell =
  bcell_text :: string
  bcell_link :: "string option"

record bowling_row =
  brow_tag :: tag
  brow_text :: string
  brow_name_cell :: "bowling_cell option"
  brow_cells :: "string list"

text \<open>\<open>tbl_ancestors\<close> lists the attributes \<open>id\<close> and \<open>data-id\<close> of the table's ancestors, nearest first.\<close>

record bowling_table =
  tbl_text :: string
  tbl_header :: "bowling_row option"
  tbl_all_rows :: "bowling_row list"
  tbl_items :: "bowling_row list"
  tbl_ancestors :: "(string \<times> string) list"

record time_elem =
  time_bold :: "string option"
  time_contents :: "(string option \<times> string) list"

record ball_elem =
  ball_overs :: "string option"
  ball_result :: "string option"

record commentary_item =
  item_time :: "time_elem option"
  item_ball :: "ball_elem option"
  item_txt :: "string option"

text \<open>
  \<open>tab_batting_tables\<close> is None when the scorecard tab is not found. \<open>tab_bowling_tables\<close>
  and \<open>doc_bowling_tables\<close> are the tables the candidate selectors find, in the order the
  scraper collects them, inside the known tabs and in the whole document; \<open>all_tables\<close> is
  every table of the document. \<open>section_commentary_items\<close> are the commentary items of the
  commentary section, or of the whole document when there is no such section, and
  \<open>alt_commentary_items\<close> what the alternative selectors find.
\<close>

record document =
  tournament_elem :: "string option"
  status_elem :: "string option"
  date_elem :: "(string \<times> bool) option"
  mom_elem :: "string option"
  venue_elem :: "string option"
  team_sections :: "team_section list"
  tab_batting_tables :: "batting_table list option"
  doc_batting_tables :: "batting_table list"
  tab_bowling_tables :: "bowling_table list"
  doc_bowling_tables :: "bowling_table list"
  all_tables :: "bowling_table list"
  section_commentary_items :: "commentary_item list"
  alt_commentary_items :: "commentary_item list"

section \<open>Match information\<close>

text \<open>\<open>date_elem\<close> pairs the element's text with whether it has a \<open>.team_score\<close> inside.\<close>

definition parse_match_info :: "document \<Rightarrow> match_state \<Rightarrow> match_state" where
  "parse_match_info soup st =
     (let mi0 = match_info st;
          mi1 = (case tournament_elem soup of None \<Rightarrow> mi0 | Some t \<Rightarrow> mi0\<lparr>title := strip t\<rparr>);
          mi2 = (case status_elem soup of None \<Rightarrow> mi1 | Some t \<Rightarrow> mi1\<lparr>status := strip t\<rparr>);
          mi3 = (case date_elem soup of
                   None \<Rightarrow> mi2
                 | Some (t, has_score) \<Rightarrow> if has_score then mi2 else mi2\<lparr>date := strip t\<rparr>);
          mi4 = (case mom_elem soup of None \<Rightarrow> mi3 | Some t \<Rightarrow> mi3\<lparr>player_of_match := Some (strip t)\<rparr>);
          mi5 = (case venue_elem soup of None \<Rightarrow> mi4 | Some t \<Rightarrow> mi4\<lparr>venue := strip t\<rparr>)
      in st\<lparr>match_info := mi5\<rparr>)"

text \<open>
  \<open>parse_match_info\<close> is the block of the method, where no statement raises on a document
  as it is modelled, and \<open>parse_match_info_call\<close> the call, with the try statement around
  the block.
\<close>

definition parse_match_info_call :: "document \<Rightarrow> match_state \<Rightarrow> py_error option \<times> match_state" where
  "parse_match_info_call soup st = try_except (None, parse_match_info soup st)"

section \<open>Teams and scores\<close>

definition new_team :: "string \<Rightarrow> team_data" where
  "new_team team_name =
     \<lparr>t_name = Some team_name, t_score = None, t_runs = None, t_wickets = None,
      t_overs = None, t_innings_complete = None, t_won = None\<rparr>"

text \<open>The score text split into score, runs, wickets and overs.\<close>

definition split_score :: "string \<Rightarrow> py_error + (string \<times> string \<times> string \<times> string)" where
  "split_score score_text =
     (let score_parts = split_on CHR ''('' score_text;
          score = strip (hd score_parts);
          overs = (if length score_parts > 1
                   then strip (filter (\<lambda>c. c \<noteq> CHR '')'') (score_parts ! 1))
                   else [])
      in if CHR ''/'' \<in> set score
         then (case split_on CHR ''/'' score of
                 [runs, wickets] \<Rightarrow> Inr (score, runs, wickets, overs)
               | _ \<Rightarrow> Inl ValueError)
         else Inr (score, score, ''0'', overs))"

definition innings_check :: "float_test \<Rightarrow> string \<Rightarrow> string \<Rightarrow> py_error + bool" where
  "innings_check float_ge_20 overs wickets =
     (case (if overs \<noteq> []
            then (if contains ''20'' overs then Inr True
                  else (case float_ge_20 (first_word overs) of
                          None \<Rightarrow> Inl ValueError
                        | Some b \<Rightarrow> Inr b))
            else Inr False) of
        Inl e \<Rightarrow> Inl e
      | Inr innings_complete \<Rightarrow> Inr (if wickets = ''10'' then True else innings_complete))"

definition set_won :: "team_key \<Rightarrow> teams_map \<Rightarrow> py_error + teams_map" where
  "set_won team_key tm =
     (case tm team_key of
        None \<Rightarrow> Inl KeyError
      | Some td \<Rightarrow> Inr (tm(team_key \<mapsto> td\<lparr>t_won := Some True\<rparr>)))"

definition has_won_class :: "elem option \<Rightarrow> bool" where
  "has_won_class e = (case e of None \<Rightarrow> False | Some x \<Rightarrow> ''ckt_won'' \<in> set (elem_classes x))"

definition won_checks :: "team_key \<Rightarrow> team_section \<Rightarrow> teams_map \<Rightarrow> py_error option \<times> teams_map" where
  "won_checks team_key section tm =
     (case (if has_won_class (name_elem section) then set_won team_key tm else Inr tm) of
        Inl e \<Rightarrow> (Some e, tm)
      | Inr tm1 \<Rightarrow>
          (case (if has_won_class (score_elem section) then set_won team_key tm1 else Inr tm1) of
             Inl e \<Rightarrow> (Some e, tm1)
           | Inr tm2 \<Rightarrow> (None, tm2)))"

text \<open>
  One round of the loop over the team sections. The result pairs the exception raised,
  if any, with the teams as the round has left them.
\<close>

definition team_section_step ::
  "float_test \<Rightarrow> team_key \<Rightarrow> team_section \<Rightarrow> teams_map \<Rightarrow> py_error option \<times> teams_map" where
  "team_section_step float_ge_20 team_key section tm0 =
     (let tm1 = (case name_elem section of
                   None \<Rightarrow> tm0
                 | Some ne \<Rightarrow> tm0(team_key \<mapsto> new_team (strip (elem_text ne))))
      in case score_elem section of
           None \<Rightarrow> won_checks team_key section tm1
         | Some se \<Rightarrow>
             (let score_text = strip (elem_text se)
              in if contains ''yet to bat'' (lower score_text)
                 then (case tm1 team_key of
                         None \<Rightarrow> (Some KeyError, tm1)
                       | Some td \<Rightarrow>
                           (None, tm1(team_key \<mapsto> td\<lparr>t_score := Some ''Yet to bat'',
                                                      t_runs := Some ''Yet to bat'',
                                                      t_wickets := Some ''0'',
                                                      t_overs := Some []\<rparr>)))
                 else (case split_score score_text of
                         Inl e \<Rightarrow> (Some e, tm1)
                       | Inr (score, runs, wickets, overs) \<Rightarrow>
                           (case innings_check float_ge_20 overs wickets of
                              Inl e \<Rightarrow> (Some e, tm1)
                            | Inr innings_complete \<Rightarrow>
                                (case tm1 team_key of
                                   None \<Rightarrow> (Some KeyError, tm1)
                                 | Some td \<Rightarrow>
                                     won_checks team_key section
                                       (tm1(team_key \<mapsto> td\<lparr>t_score := Some score,
                                                              t_runs := Some runs,
                                                              t_wickets := Some wickets,
                                                              t_overs := Some overs,
                                                              t_innings_complete := Some innings_complete\<rparr>)))))))"

fun teams_loop ::
  "float_test \<Rightarrow> (team_key \<times> team_section) list \<Rightarrow> teams_map \<Rightarrow> py_error option \<times> teams_map" where
  "teams_loop float_ge_20 [] tm = (None, tm)"
| "teams_loop float_ge_20 ((team_key, section) # rest) tm =
     (case team_section_step float_ge_20 team_key section tm of
        (Some e, tm1) \<Rightarrow> (Some e, tm1)
      | (None, tm1) \<Rightarrow> teams_loop float_ge_20 rest tm1)"

text \<open>
  The block of \<open>parse_teams_and_scores\<close>, the call of the method, with the try statement
  around the block, and the match data after the call.
\<close>

definition parse_teams_and_scores_body ::
  "float_test \<Rightarrow> document \<Rightarrow> match_state \<Rightarrow> py_error option \<times> match_state" where
  "parse_teams_and_scores_body float_ge_20 soup st =
     (case teams_loop float_ge_20 (zip [Team1, Team2] (team_sections soup)) (teams st) of
        (err, tm) \<Rightarrow> (err, st\<lparr>teams := tm\<rparr>))"

definition parse_teams_and_scores_call ::
  "float_test \<Rightarrow> document \<Rightarrow> match_state \<Rightarrow> py_error option \<times> match_state" where
  "parse_teams_and_scores_call float_ge_20 soup st =
     try_except (parse_teams_and_scores_body float_ge_20 soup st)"

definition parse_teams_and_scores :: "float_test \<Rightarrow> document \<Rightarrow> match_state \<Rightarrow> match_state" where
  "parse_teams_and_scores float_ge_20 soup st = snd (parse_teams_and_scores_call float_ge_20 soup st)"

section \<open>Batting\<close>

text \<open>The row data collected for the validation pass; \<open>b_row\<close> is the row's tag.\<close>

record batsman =
  b_name :: string
  b_runs :: string
  b_balls :: string
  b_fours :: string
  b_sixes :: string
  b_strike_rate :: string
  b_dismissal :: string
  b_is_out :: bool
  b_row :: tag

definition team_get :: "(team_data \<Rightarrow> string option) \<Rightarrow> string \<Rightarrow> teams_map \<Rightarrow> team_key \<Rightarrow> string" where
  "team_get field dflt tm team_key =
     (case tm team_key of
        None \<Rightarrow> dflt
      | Some td \<Rightarrow> (case field td of None \<Rightarrow> dflt | Some v \<Rightarrow> v))"

definition key_name :: "team_key \<Rightarrow> string" where
  "key_name k = (case k of Team1 \<Rightarrow> ''team1'' | Team2 \<Rightarrow> ''team2'')"

text \<open>One row of a batting table; None where the loop goes on without appending.\<close>

definition parse_batsman_row :: "batting_row \<Rightarrow> batsman option" where
  "parse_batsman_row row =
     (case row_name_cell row of
        None \<Rightarrow> None
      | Some name_cell \<Rightarrow>
          (let player_name = (case cell_link name_cell of
                                Some l \<Rightarrow> strip l
                              | None \<Rightarrow> strip (cell_text name_cell));
               stat_cells = row_cells row
           in if contains ''total'' (lower player_name) \<or> contains ''extras'' (lower player_name)
              then None
              else if length stat_cells \<ge> 6
              then
                (let (dismissal1, is_out1) =
                       (case row_footnote row of
                          None \<Rightarrow> (''not out'', False)
                        | Some t \<Rightarrow>
                            if strip t \<noteq> [] \<and> \<not> contains ''not out'' (lower (strip t))
                            then (strip t, True) else (''not out'', False));
                     (dismissal2, is_out2) =
                       (if ''bold'' \<in> set (cell_classes name_cell) \<or> ''ckt_dis'' \<in> set (cell_classes name_cell)
                        then (if dismissal1 = ''not out'' then ''out'' else dismissal1, True)
                        else (dismissal1, is_out1));
                     (dismissal3, is_out3) =
                       (if cell_strike name_cell
                        then (if dismissal2 = ''not out'' then ''out'' else dismissal2, True)
                        else (dismissal2, is_out2))
                 in Some \<lparr>b_name = player_name,
                          b_runs = strip (stat_cells ! 1),
                          b_balls = strip (stat_cells ! 2),
                          b_fours = strip (stat_cells ! 3),
                          b_sixes = strip (stat_cells ! 4),
                          b_strike_rate = strip (stat_cells ! 5),
                          b_dismissal = dismissal3,
                          b_is_out = is_out3,
                          b_row = row_tag row\<rparr>)
              else None))"

fun index_of :: "'a list \<Rightarrow> 'a \<Rightarrow> nat" where
  "index_of [] x = 0"
| "index_of (y # ys) x = (if x = y then 0 else Suc (index_of ys x))"

text \<open>The key of the sort by position in the table.\<close>

definition position_key :: "tag list \<Rightarrow> batsman \<Rightarrow> int" where
  "position_key batsman_rows b =
     (if b_row b \<in> set batsman_rows then int (index_of batsman_rows (b_row b)) else 999)"

definition runs_value :: "batsman \<Rightarrow> int" where
  "runs_value b = (case py_int (b_runs b) of Inl e \<Rightarrow> 0 | Inr n \<Rightarrow> n)"

definition runs_parse :: "batsman \<Rightarrow> bool" where
  "runs_parse b = (case py_int (b_runs b) of Inl e \<Rightarrow> False | Inr n \<Rightarrow> True)"

text \<open>
  The loop that marks batsmen as out: \<open>out_batsmen\<close> is the running count, and a batsman
  is skipped when he is out already or equal to one of the current batsmen.
\<close>

fun mark_out :: "batsman list \<Rightarrow> int \<Rightarrow> int \<Rightarrow> batsman list \<Rightarrow> batsman list" where
  "mark_out current_batsmen wickets_down out_batsmen [] = []"
| "mark_out current_batsmen wickets_down out_batsmen (batsman # rest) =
     (if b_is_out batsman \<or> batsman \<in> set current_batsmen
      then batsman # mark_out current_batsmen wickets_down out_batsmen rest
      else (if out_batsmen + 1 \<ge> wickets_down
            then batsman\<lparr>b_is_out := True, b_dismissal := ''out''\<rparr> # rest
            else batsman\<lparr>b_is_out := True, b_dismissal := ''out''\<rparr> #
                 mark_out current_batsmen wickets_down (out_batsmen + 1) rest))"

text \<open>The two batsmen of the highest runs, taken as the current batsmen.\<close>

definition top_two :: "batsman list \<Rightarrow> batsman list" where
  "top_two batsmen = take 2 (sort_key (\<lambda>b. - runs_value b) batsmen)"

text \<open>
  The cross-check with the wickets count. \<open>int\<close> raises ValueError on the wickets text,
  and, in the sort by runs, on the runs of any batsman. A sort with \<open>reverse=True\<close>
  keeps the order of equal keys, as the sort by the negated key does.
\<close>

definition cross_check :: "tag list \<Rightarrow> string \<Rightarrow> batsman list \<Rightarrow> py_error + batsman list" where
  "cross_check batsman_rows wickets_text all_batsmen =
     (case py_int wickets_text of
        Inl e \<Rightarrow> Inl e
      | Inr wickets_down \<Rightarrow>
          (let out_batsmen = int (length (filter b_is_out all_batsmen))
           in if wickets_down > out_batsmen
              then (let sorted_batsmen = sort_key (position_key batsman_rows) all_batsmen
                    in if list_all runs_parse sorted_batsmen
                       then (let current_batsmen = top_two sorted_batsmen
                             in Inr (mark_out current_batsmen wickets_down out_batsmen sorted_batsmen))
                       else Inl ValueError)
              else Inr all_batsmen))"

definition entry_of :: "batsman \<Rightarrow> batting_entry" where
  "entry_of b =
     \<lparr>bat_name = b_name b, bat_runs = b_runs b, bat_balls = b_balls b, bat_fours = b_fours b,
      bat_sixes = b_sixes b, bat_strike_rate = b_strike_rate b,
      bat_dismissal = (if b_is_out b then b_dismissal b else ''not out'')\<rparr>"

definition is_batting_table :: "batting_table \<Rightarrow> bool" where
  "is_batting_table table = (case bat_header table of None \<Rightarrow> False | Some t \<Rightarrow> contains ''BATTERS'' t)"

text \<open>
  The loop over the batting tables, with the count of tables that gave batsmen, the
  batting statistics and the match information as they stand. An exception ends it.
\<close>

fun batting_loop ::
  "teams_map \<Rightarrow> team_key \<Rightarrow> team_key \<Rightarrow> batting_table list \<Rightarrow> nat \<Rightarrow> batting_map \<Rightarrow>
   match_info_data \<Rightarrow> py_error option \<times> batting_map \<times> match_info_data" where
  "batting_loop tm batting_first_team batting_second_team [] batting_count bs mi = (None, bs, mi)"
| "batting_loop tm batting_first_team batting_second_team (table # rest) batting_count bs mi =
     (if \<not> is_batting_table table
      then batting_loop tm batting_first_team batting_second_team rest batting_count bs mi
      else
        (let team_key = (if batting_count = 0 then batting_first_team else batting_second_team);
             score_text = team_get t_score [] tm team_key
         in if contains ''yet to bat'' (lower score_text)
            then batting_loop tm batting_first_team batting_second_team rest batting_count bs mi
            else
              (let bs1 = bs(team_key \<mapsto> []);
                   all_batsmen = List.map_filter parse_batsman_row (bat_rows table)
               in case cross_check (map row_tag (bat_rows table)) (team_get t_wickets ''0'' tm team_key)
                         all_batsmen of
                    Inl e \<Rightarrow> (Some e, bs1, mi)
                  | Inr batsmen \<Rightarrow>
                      (let bs2 = bs1(team_key \<mapsto> map entry_of batsmen);
                           batting_count1 = (if batsmen \<noteq> [] then batting_count + 1 else batting_count);
                           overs = team_get t_overs [] tm team_key;
                           mi1 = (if overs \<noteq> [] \<and> contains ''20'' overs
                                  then mi\<lparr>innings_status := Some (key_name team_key @ ''_complete'')\<rparr>
                                  else mi)
                       in batting_loop tm batting_first_team batting_second_team rest batting_count1 bs2 mi1))))"

definition find_batting_tables :: "document \<Rightarrow> batting_table list" where
  "find_batting_tables soup =
     (let batting_tables = (case tab_batting_tables soup of None \<Rightarrow> [] | Some ts \<Rightarrow> ts)
      in if batting_tables = [] then doc_batting_tables soup else batting_tables)"

definition batting_order :: "match_state \<Rightarrow> team_key \<times> team_key" where
  "batting_order st =
     (let match_status = lower (status (match_info st));
          team2_name = lower (team_get t_name [] (teams st) Team2)
      in if team2_name \<noteq> [] \<and> contains team2_name match_status \<and> contains ''elected to field'' match_status
         then (Team2, Team1) else (Team1, Team2))"

definition parse_batting_stats_body :: "document \<Rightarrow> match_state \<Rightarrow> py_error option \<times> match_state" where
  "parse_batting_stats_body soup st =
     (case batting_order st of
        (batting_first_team, batting_second_team) \<Rightarrow>
          (case batting_loop (teams st) batting_first_team batting_second_team
                  (find_batting_tables soup) 0 Map.empty (match_info st) of
             (err, bs, mi) \<Rightarrow> (err, st\<lparr>batting_stats := bs, match_info := mi\<rparr>)))"

text \<open>The call of \<open>parse_batting_stats\<close>, and the match data after the call.\<close>

definition parse_batting_stats_call :: "document \<Rightarrow> match_state \<Rightarrow> py_error option \<times> match_state" where
  "parse_batting_stats_call soup st = try_except (parse_batting_stats_body soup st)"

definition parse_batting_stats :: "document \<Rightarrow> match_state \<Rightarrow> match_state" where
  "parse_batting_stats soup st = snd (parse_batting_stats_call soup st)"

section \<open>Bowling\<close>

definition bowling_keywords :: "string \<Rightarrow> bool" where
  "bowling_keywords table_text =
     (contains ''bowl'' table_text \<or> contains ''overs'' table_text \<or>
      contains ''maidens'' table_text \<or> contains ''economy'' table_text)"

text \<open>The search for the bowling tables: in the tabs, else in the document, else by keywords.\<close>

definition find_bowling_tables :: "document \<Rightarrow> bowling_table list" where
  "find_bowling_tables soup =
     (let bowling_tables1 = tab_bowling_tables soup;
          bowling_tables2 = (if bowling_tables1 = [] then doc_bowling_tables soup else bowling_tables1)
      in if bowling_tables2 = []
         then filter (\<lambda>table. bowling_keywords (lower (tbl_text table))) (all_tables soup)
         else bowling_tables2)"

definition won_flag :: "teams_map \<Rightarrow> team_key \<Rightarrow> bool" where
  "won_flag tm k = (case tm k of None \<Rightarrow> False | Some td \<Rightarrow> t_won td = Some True)"

definition innings_complete_flag_of :: "teams_map \<Rightarrow> team_key \<Rightarrow> bool" where
  "innings_complete_flag_of tm k =
     (case tm k of None \<Rightarrow> False | Some td \<Rightarrow> t_innings_complete td = Some True)"

definition match_completed :: "match_state \<Rightarrow> bool" where
  "match_completed st =
     (let match_status = lower (status (match_info st))
      in contains ''won by'' match_status \<or> contains ''match tied'' match_status \<or>
         contains ''won the match'' match_status \<or> contains ''match over'' match_status \<or>
         won_flag (teams st) Team1 \<or> won_flag (teams st) Team2)"

text \<open>The team that is bowling now; None when the tables of both teams are processed.\<close>

definition current_bowling_team :: "match_state \<Rightarrow> team_key option" where
  "current_bowling_team st =
     (let team1_score = lower (team_get t_score [] (teams st) Team1);
          team2_score = lower (team_get t_score [] (teams st) Team2)
      in if contains ''yet to bat'' team2_score then Some Team2
         else if contains ''yet to bat'' team1_score then Some Team1
         else if match_completed st then None
         else (let team1_innings_complete = innings_complete_flag_of (teams st) Team1;
                   team2_innings_complete = innings_complete_flag_of (teams st) Team2
               in if team1_innings_complete \<and> \<not> team2_innings_complete then Some Team1
                  else if team2_innings_complete \<and> \<not> team1_innings_complete then Some Team2
                  else None))"

definition header_matches :: "bowling_row \<Rightarrow> bool" where
  "header_matches header_row =
     (let header_cells = brow_cells header_row
      in length header_cells \<ge> 6 \<and>
         (let header_texts = map upper header_cells;
              overs_present = list_ex (\<lambda>v. v \<in> set header_texts) [''O'', ''OVERS'', ''OV''];
              wickets_present = list_ex (\<lambda>v. v \<in> set header_texts) [''W'', ''WKTS'', ''WICKETS''];
              runs_present = list_ex (\<lambda>v. v \<in> set header_texts) [''R'', ''RUNS'', ''RNS'']
          in contains ''BOWLERS'' (header_texts ! 0) \<or>
             (overs_present \<and> wickets_present \<and> runs_present)))"

definition first_row_matches :: "bowling_row \<Rightarrow> bool" where
  "first_row_matches first_row =
     (let t = upper (strip (brow_text first_row))
      in contains ''BOWLERS'' t \<or> contains ''BOWLING'' t \<or> contains ''OVERS'' t \<or> contains ''ECON'' t)"

text \<open>The header row of a table that is taken as a bowling table; None when the table is skipped.\<close>

definition identify_table :: "bowling_table \<Rightarrow> bowling_row option" where
  "identify_table table =
     (if (case tbl_header table of None \<Rightarrow> False | Some header_row \<Rightarrow> header_matches header_row)
      then tbl_header table
      else (case tbl_all_rows table of
              [] \<Rightarrow> None
            | first_row # _ \<Rightarrow> if first_row_matches first_row then Some first_row else None))"

text \<open>The climb of up to five ancestors for a tab container.\<close>

definition is_tab :: "string \<times> string \<Rightarrow> bool" where
  "is_tab a = (fst a \<in> set [''tab_1'', ''tab_2''] \<or> snd a \<in> set [''ckt_fltr_0'', ''ckt_fltr_1''])"

definition tab_parent :: "bowling_table \<Rightarrow> string option" where
  "tab_parent table =
     (case find is_tab (take 5 (tbl_ancestors table)) of
        None \<Rightarrow> None
      | Some (parent_id, parent_data_id) \<Rightarrow> Some (if parent_id \<noteq> [] then parent_id else parent_data_id))"

definition assign_team :: "bowling_table \<Rightarrow> nat \<Rightarrow> team_key" where
  "assign_team table bowling_count =
     (case tab_parent table of
        Some tp \<Rightarrow>
          (if tp \<noteq> []
           then (if tp \<in> set [''tab_1'', ''ckt_fltr_0''] then Team2 else Team1)
           else (if bowling_count = 0 then Team2 else Team1))
      | None \<Rightarrow> (if bowling_count = 0 then Team2 else Team1))"

text \<open>The test that skips a table of the team that is not bowling now.\<close>

definition skip_table :: "team_key option \<Rightarrow> team_key \<Rightarrow> bool" where
  "skip_table cbt bowling_team = (cbt \<noteq> None \<and> Some bowling_team \<noteq> cbt)"

fun remove_tag :: "tag \<Rightarrow> bowling_row list \<Rightarrow> bowling_row list" where
  "remove_tag t [] = []"
| "remove_tag t (r # rs) = (if brow_tag r = t then rs else r # remove_tag t rs)"

definition bowler_rows_of :: "bowling_row \<Rightarrow> bowling_table \<Rightarrow> bowling_row list" where
  "bowler_rows_of header_row table =
     (if tbl_items table \<noteq> [] then tbl_items table
      else (let bowler_rows = tbl_all_rows table
            in if bowler_rows \<noteq> [] \<and> brow_tag header_row \<in> set (map brow_tag bowler_rows)
               then remove_tag (brow_tag header_row) bowler_rows
               else bowler_rows))"

text \<open>
  The cleaning of a player name. The substitution of \<open>^\s*[^a-zA-Z]+\<close> drops the longest
  prefix without a letter, and that of \<open>[^a-zA-Z\)]+\s*$\<close> the longest suffix with neither
  a letter nor a closing parenthesis.
\<close>

definition close_paren :: "string \<Rightarrow> string" where
  "close_paren n = (if CHR ''('' \<in> set n \<and> CHR '')'' \<notin> set n then n @ '')'' else n)"

definition clean_name :: "string \<Rightarrow> string" where
  "clean_name player_name =
     (let n1 = map (\<lambda>c. if of_char c = (160 :: nat) then CHR '' '' else c) player_name;
          n2 = close_paren n1;
          n3 = dropWhile (\<lambda>c. \<not> is_alpha c) n2
      in rev (dropWhile (\<lambda>c. \<not> is_alpha c \<and> c \<noteq> CHR '')'') (rev n3)))"

definition parse_bowler_row :: "bowling_row \<Rightarrow> bowler_data option" where
  "parse_bowler_row row =
     (case brow_name_cell row of
        None \<Rightarrow> None
      | Some name_cell \<Rightarrow>
          (let player_name = clean_name (case bcell_link name_cell of
                                           Some l \<Rightarrow> l
                                         | None \<Rightarrow> bcell_text name_cell);
               stat_cells = brow_cells row
           in if contains ''total'' (lower player_name) \<or> contains ''extras'' (lower player_name)
              then None
              else if length stat_cells \<ge> 6
              then Some \<lparr>bowl_name = player_name,
                         bowl_overs = stat_cells ! 1,
                         bowl_maidens = stat_cells ! 2,
                         bowl_runs = stat_cells ! 3,
                         bowl_wickets = stat_cells ! 4,
                         bowl_economy = stat_cells ! 5,
                         bowl_inferred = False\<rparr>
              else None))"

text \<open>The dictionary from each name to the index of its last entry.\<close>

definition existing_bowlers :: "bowler_data list \<Rightarrow> (string \<rightharpoonup> nat)" where
  "existing_bowlers bowlers = map_of (rev (zip (map bowl_name bowlers) [0..<length bowlers]))"

text \<open>The entry of the same name is replaced where it stands, a new name is appended.\<close>

definition upsert :: "bowler_data list \<Rightarrow> bowler_data \<Rightarrow> bowler_data list" where
  "upsert bowlers bowler =
     (case existing_bowlers bowlers (bowl_name bowler) of
        Some i \<Rightarrow> bowlers[i := bowler]
      | None \<Rightarrow> bowlers @ [bowler])"

definition add_bowler_if_not_exists ::
  "team_key \<Rightarrow> bowler_data \<Rightarrow> bowling_map \<Rightarrow> py_error + bowling_map" where
  "add_bowler_if_not_exists team_key bowler bs =
     (case bs team_key of
        None \<Rightarrow> Inl KeyError
      | Some bowlers \<Rightarrow> Inr (bs(team_key \<mapsto> upsert bowlers bowler)))"

text \<open>One bowler row; an exception in it is logged and the loop goes on.\<close>

definition bowler_row_step :: "team_key \<Rightarrow> bowling_map \<Rightarrow> bowling_row \<Rightarrow> bowling_map" where
  "bowler_row_step bowling_team bs row =
     (case parse_bowler_row row of
        None \<Rightarrow> bs
      | Some bowler \<Rightarrow>
          (case add_bowler_if_not_exists bowling_team bowler bs of
             Inl e \<Rightarrow> bs
           | Inr bs1 \<Rightarrow> bs1))"

text \<open>The loop over the bowling tables; an exception in a table is logged and the loop goes on.\<close>

fun bowling_loop :: "team_key option \<Rightarrow> bowling_table list \<Rightarrow> nat \<Rightarrow> bowling_map \<Rightarrow> bowling_map" where
  "bowling_loop cbt [] bowling_count bs = bs"
| "bowling_loop cbt (table # rest) bowling_count bs =
     (case identify_table table of
        None \<Rightarrow> bowling_loop cbt rest bowling_count bs
      | Some header_row \<Rightarrow>
          (let bowling_team = assign_team table bowling_count
           in if skip_table cbt bowling_team
              then bowling_loop cbt rest bowling_count bs
              else (let bs1 = foldl (bowler_row_step bowling_team) bs (bowler_rows_of header_row table)
                    in case bs1 bowling_team of
                         None \<Rightarrow> bowling_loop cbt rest bowling_count bs1
                       | Some bowlers \<Rightarrow>
                           bowling_loop cbt rest
                             (if bowlers \<noteq> [] then bowling_count + 1 else bowling_count) bs1)))"

definition placeholder :: "teams_map \<Rightarrow> team_key \<Rightarrow> bowler_data" where
  "placeholder tm batting_team =
     \<lparr>bowl_name = ''Bowling data not available'',
      bowl_overs = team_get t_overs ''0.0'' tm batting_team,
      bowl_maidens = ''0'',
      bowl_runs = team_get t_runs ''0'' tm batting_team,
      bowl_wickets = team_get t_wickets ''0'' tm batting_team,
      bowl_economy = ''0.00'',
      bowl_inferred = True\<rparr>"

definition has_batsmen :: "batting_map \<Rightarrow> team_key \<Rightarrow> bool" where
  "has_batsmen bm k = (case bm k of None \<Rightarrow> False | Some entries \<Rightarrow> entries \<noteq> [])"

definition infer_for :: "team_key \<Rightarrow> team_key \<Rightarrow> match_state \<Rightarrow> match_state" where
  "infer_for batting_team bowling_team st =
     (let team_score = lower (team_get t_score [] (teams st) batting_team)
      in if team_score \<noteq> [] \<and> \<not> contains ''yet to bat'' team_score \<and>
            has_batsmen (batting_stats st) batting_team
         then st\<lparr>bowling_stats := (bowling_stats st)(bowling_team \<mapsto> [placeholder (teams st) batting_team])\<rparr>
         else st)"

definition infer_missing_bowling_stats :: "match_state \<Rightarrow> match_state" where
  "infer_missing_bowling_stats st = infer_for Team2 Team1 (infer_for Team1 Team2 st)"

definition has_bowlers :: "bowling_map \<Rightarrow> team_key \<Rightarrow> bool" where
  "has_bowlers bs k = (case bs k of None \<Rightarrow> False | Some bowlers \<Rightarrow> bowlers \<noteq> [])"

definition parse_bowling_stats :: "document \<Rightarrow> match_state \<Rightarrow> match_state" where
  "parse_bowling_stats soup st =
     (let bs0 = [Team1 \<mapsto> [], Team2 \<mapsto> []];
          bs1 = bowling_loop (current_bowling_team st) (find_bowling_tables soup) 0 bs0;
          st1 = st\<lparr>bowling_stats := bs1\<rparr>
      in if \<not> (has_bowlers bs1 Team1 \<or> has_bowlers bs1 Team2)
         then infer_missing_bowling_stats st1
         else st1)"

text \<open>
  \<open>parse_bowling_stats\<close> is the block of the method: the exceptions of a row are caught
  in the loops, and no other statement raises. \<open>parse_bowling_stats_call\<close> is the call:
  the try statement around the block, and after it the loop that logs the length of each
  bowling list, which writes nothing and raises nothing.
\<close>

definition parse_bowling_stats_call :: "document \<Rightarrow> match_state \<Rightarrow> py_error option \<times> match_state" where
  "parse_bowling_stats_call soup st =
     and_then (try_except (None, parse_bowling_stats soup st)) (\<lambda>st1. (None, st1))"

section \<open>Commentary\<close>

definition commentary_entry_of :: "commentary_item \<Rightarrow> commentary_entry option" where
  "commentary_entry_of item =
     (case item_time item of
        Some time_el \<Rightarrow>
          (let time_text = (case time_bold time_el of None \<Rightarrow> [] | Some t \<Rightarrow> strip t);
               text0 = concat (map (\<lambda>(child_name, child_str).
                                      if child_name \<noteq> Some ''b'' then strip child_str else [])
                                   (time_contents time_el))
           in Some (General time_text (lstrip text0)))
      | None \<Rightarrow>
          (case item_ball item of
             Some ball_el \<Rightarrow>
               (let over = (case ball_overs ball_el of None \<Rightarrow> [] | Some t \<Rightarrow> strip t);
                    res = (case ball_result ball_el of None \<Rightarrow> [] | Some t \<Rightarrow> strip t);
                    txt = (case item_txt item of None \<Rightarrow> [] | Some t \<Rightarrow> strip t)
                in Some (Ball over res txt))
           | None \<Rightarrow> None))"

definition find_commentary_items :: "document \<Rightarrow> commentary_item list" where
  "find_commentary_items soup =
     (if section_commentary_items soup = [] then alt_commentary_items soup
      else section_commentary_items soup)"

definition parse_commentary :: "document \<Rightarrow> match_state \<Rightarrow> match_state" where
  "parse_commentary soup st =
     (let commentary_items = find_commentary_items soup
      in if commentary_items = [] then st
         else st\<lparr>commentary := List.map_filter commentary_entry_of (take 20 commentary_items)\<rparr>)"

text \<open>\<open>parse_commentary\<close> is the block of the method, where no statement raises, and \<open>parse_commentary_call\<close> the call.\<close>

definition parse_commentary_call :: "document \<Rightarrow> match_state \<Rightarrow> py_error option \<times> match_state" where
  "parse_commentary_call soup st = try_except (None, parse_commentary soup st)"

section \<open>The update cycle\<close>

text \<open>The bowlers at the first index of each name, which replace a list with a duplicate.\<close>

fun unique_bowlers :: "string list \<Rightarrow> bowler_data list \<Rightarrow> bowler_data list" where
  "unique_bowlers seen [] = []"
| "unique_bowlers seen (bowler # rest) =
     (if bowl_name bowler \<in> set seen then unique_bowlers seen rest
      else bowler # unique_bowlers (bowl_name bowler # seen) rest)"

definition remove_duplicates :: "bowler_data list \<Rightarrow> bowler_data list" where
  "remove_duplicates bowlers =
     (let duplicate_count = length bowlers - length (unique_bowlers [] bowlers)
      in if duplicate_count > 0 then unique_bowlers [] bowlers else bowlers)"

definition fix_name :: "batting_entry \<Rightarrow> batting_entry" where
  "fix_name batsman = batsman\<lparr>bat_name := close_paren (bat_name batsman)\<rparr>"

definition validate_data :: "match_state \<Rightarrow> match_state" where
  "validate_data st =
     st\<lparr>bowling_stats := (\<lambda>k. map_option remove_duplicates (bowling_stats st k)),
        batting_stats := (\<lambda>k. map_option (map fix_name) (batting_stats st k))\<rparr>"

text \<open>
  \<open>parse_html\<close> and \<open>update\<close> take the fetched document, None when nothing was fetched
  (the fetch failed or gave an empty text). \<open>parse_html_block\<close> is the block inside the try
  statement of \<open>parse_html\<close>, the five calls one after the other: an exception that left
  one of them would skip the calls after it. \<open>parse_html_call\<close> is the call of the method
  and \<open>parse_html\<close> the match data after the call.
\<close>

definition parse_html_block :: "float_test \<Rightarrow> document \<Rightarrow> match_state \<Rightarrow> py_error option \<times> match_state" where
  "parse_html_block float_ge_20 soup st =
     and_then
       (and_then
          (and_then
             (and_then (parse_match_info_call soup st)
                (parse_teams_and_scores_call float_ge_20 soup))
             (parse_batting_stats_call soup))
          (parse_bowling_stats_call soup))
       (parse_commentary_call soup)"

definition parse_html_call ::
  "float_test \<Rightarrow> document option \<Rightarrow> match_state \<Rightarrow> py_error option \<times> match_state" where
  "parse_html_call float_ge_20 html_content st =
     (case html_content of
        None \<Rightarrow> (None, st)
      | Some soup \<Rightarrow> try_except (parse_html_block float_ge_20 soup st))"

definition parse_html :: "float_test \<Rightarrow> document option \<Rightarrow> match_state \<Rightarrow> match_state" where
  "parse_html float_ge_20 html_content st = snd (parse_html_call float_ge_20 html_content st)"

text \<open>
  \<open>update\<close> has no try statement of its own: an exception that left \<open>parse_html\<close> would
  leave \<open>update\<close> too, before the time is stamped. The first component is what the caller
  gets: \<open>Inl\<close> an exception, \<open>Inr None\<close> the return without a value of the early exit,
  \<open>Inr (Some st)\<close> the match data returned. The second component is the match data that
  \<open>update\<close> leaves.
\<close>

definition update ::
  "float_test \<Rightarrow> string \<Rightarrow> document option \<Rightarrow> match_state \<Rightarrow>
   (py_error + match_state option) \<times> match_state" where
  "update float_ge_20 now html_content st =
     (case html_content of
        None \<Rightarrow> (Inr None, st)
      | Some soup \<Rightarrow>
          (case parse_html_call float_ge_20 html_content st of
             (Some e, st1) \<Rightarrow> (Inl e, st1)
           | (None, st1) \<Rightarrow>
               (let st2 = validate_data (st1\<lparr>last_updated := now\<rparr>)
                in (Inr (Some st2), st2))))"


text \<open>
  The batsmen that the marking loop may mark: not out and not equal to one of the two
  of the highest runs; and a batsman as the loop marks him.
\<close>

definition eligible :: "batsman list \<Rightarrow> batsman list" where
  "eligible batsmen = filter (\<lambda>b. \<not> b_is_out b \<and> b \<notin> set (top_two batsmen)) batsmen"

definition marked :: "batsman \<Rightarrow> batsman" where
  "marked b = b\<lparr>b_is_out := True, b_dismissal := ''out''\<rparr>"

text \<open>
  A round of the team loop reads and writes the entry of its own team only: the round as
  a function of that entry, for the proofs.
\<close>

definition entry_won :: "team_section \<Rightarrow> team_data option \<Rightarrow> py_error option \<times> team_data option" where
  "entry_won section entry =
     (if has_won_class (name_elem section) \<or> has_won_class (score_elem section)
      then (case entry of
              None \<Rightarrow> (Some KeyError, None)
            | Some td \<Rightarrow> (None, Some (td\<lparr>t_won := Some True\<rparr>)))
      else (None, entry))"

definition entry_step ::
  "float_test \<Rightarrow> team_section \<Rightarrow> team_data option \<Rightarrow> py_error option \<times> team_data option" where
  "entry_step float_ge_20 section entry0 =
     (let entry1 = (case name_elem section of
                      None \<Rightarrow> entry0
                    | Some ne \<Rightarrow> Some (new_team (strip (elem_text ne))))
      in case score_elem section of
           None \<Rightarrow> entry_won section entry1
         | Some se \<Rightarrow>
             (let score_text = strip (elem_text se)
              in if contains ''yet to bat'' (lower score_text)
                 then (case entry1 of
                         None \<Rightarrow> (Some KeyError, None)
                       | Some td \<Rightarrow>
                           (None, Some (td\<lparr>t_score := Some ''Yet to bat'',
                                            t_runs := Some ''Yet to bat'',
                                            t_wickets := Some ''0'',
                                            t_overs := Some []\<rparr>)))
                 else (case split_score score_text of
                         Inl e \<Rightarrow> (Some e, entry1)
                       | Inr (score, runs, wickets, overs) \<Rightarrow>
                           (case innings_check float_ge_20 overs wickets of
                              Inl e \<Rightarrow> (Some e, entry1)
                            | Inr innings_complete \<Rightarrow>
                                (case entry1 of
                                   None \<Rightarrow> (Some KeyError, None)
                                 | Some td \<Rightarrow>
                                     entry_won section
                                       (Some (td\<lparr>t_score := Some score,
                                                  t_runs := Some runs,
                                                  t_wickets := Some wickets,
                                                  t_overs := Some overs,
                                                  t_innings_complete := Some innings_complete\<rparr>)))))))"

section \<open>The first match data and the empty document\<close>

text \<open>The match data as the constructor leaves it, and a document where no selector finds anything.\<close>

definition init_match_data :: "string option \<Rightarrow> string option \<Rightarrow> match_state" where
  "init_match_data mid tid =
     \<lparr>match_info = \<lparr>title = [], venue = [], date = [], status = [], result = [],
                     match_id = mid, tournament_id = tid,
                     player_of_match = None, innings_status = None\<rparr>,
      teams = Map.empty, batting_stats = Map.empty, bowling_stats = Map.empty,
      commentary = [], last_updated = []\<rparr>"

definition empty_document :: document where
  "empty_document =
     \<lparr>tournament_elem = None, status_elem = None, date_elem = None, mom_elem = None,
      venue_elem = None, team_sections = [], tab_batting_tables = None,
      doc_batting_tables = [], tab_bowling_tables = [], doc_bowling_tables = [],
      all_tables = [], section_commentary_items = [], alt_commentary_items = []\<rparr>"

section \<open>Sample data\<close>

text \<open>A bowling table under the first tab, with its header row and one bowler row, and the teams of a completed match.\<close>

definition sample_header :: bowling_row where
  "sample_header =
     \<lparr>brow_tag = ''<tr class=ckt_row_hdr>'', brow_text = ''BOWLERS O M R W ECO'',
      brow_name_cell = Some \<lparr>bcell_text = ''BOWLERS'', bcell_link = None\<rparr>,
      brow_cells = [''BOWLERS'', ''O'', ''M'', ''R'', ''W'', ''ECO'']\<rparr>"

definition sample_bowler_row :: bowling_row where
  "sample_bowler_row =
     \<lparr>brow_tag = ''<tr class=ckt_row_item>Bumrah'', brow_text = ''Bumrah 4 0 24 2 6.00'',
      brow_name_cell = Some \<lparr>bcell_text = ''Bumrah'', bcell_link = Some ''Bumrah''\<rparr>,
      brow_cells = [''Bumrah'', ''4'', ''0'', ''24'', ''2'', ''6.00'']\<rparr>"

definition sample_bowling_table :: bowling_table where
  "sample_bowling_table =
     \<lparr>tbl_text = ''BOWLERS O M R W ECO Bumrah 4 0 24 2 6.00'',
      tbl_header = Some sample_header,
      tbl_all_rows = [sample_header, sample_bowler_row],
      tbl_items = [sample_bowler_row],
      tbl_ancestors = [([], []), (''tab_1'', [])]\<rparr>"

definition sample_team :: "string \<Rightarrow> string \<Rightarrow> string \<Rightarrow> string \<Rightarrow> string \<Rightarrow> team_data" where
  "sample_team n sc r w ov =
     \<lparr>t_name = Some n, t_score = Some sc, t_runs = Some r, t_wickets = Some w,
      t_overs = Some ov, t_innings_complete = Some False, t_won = None\<rparr>"

definition completed_state :: match_state where
  "completed_state =
     (init_match_data None None)
       \<lparr>match_info := (match_info (init_match_data None None))\<lparr>status := ''MI won by 5 wickets''\<rparr>,
        teams := [Team1 \<mapsto> sample_team ''CSK'' ''155/8'' ''155'' ''8'' ''19.5'',
                  Team2 \<mapsto> sample_team ''MI'' ''156/5'' ''156'' ''5'' ''18.1'']\<rparr>"

text \<open>A document of the first innings: team 1 bats, team 2 is yet to bat; and the match data after it.\<close>

definition batting_section :: team_section where
  "batting_section =
     \<lparr>name_elem = Some \<lparr>elem_text = ''CSK'', elem_classes = []\<rparr>,
      score_elem = Some \<lparr>elem_text = ''45/1 (6.2)'', elem_classes = [''team_score'']\<rparr>\<rparr>"

definition yet_to_bat_section :: team_section where
  "yet_to_bat_section =
     \<lparr>name_elem = Some \<lparr>elem_text = ''MI'', elem_classes = []\<rparr>,
      score_elem = Some \<lparr>elem_text = ''Yet to Bat'', elem_classes = [''team_score'']\<rparr>\<rparr>"

definition first_innings_document :: document where
  "first_innings_document =
     empty_document\<lparr>team_sections := [batting_section, yet_to_bat_section],
                    tab_bowling_tables := [sample_bowling_table]\<rparr>"

definition first_innings_state :: match_state where
  "first_innings_state =
     (init_match_data None None)
       \<lparr>teams := [Team1 \<mapsto> sample_team ''CSK'' ''45/1'' ''45'' ''1'' ''6.2'',
                  Team2 \<mapsto> \<lparr>t_name = Some ''MI'', t_score = Some ''Yet to bat'',
                              t_runs = Some ''Yet to bat'', t_wickets = Some ''0'',
                              t_overs = Some [], t_innings_complete = None, t_won = None\<rparr>]\<rparr>"

definition sample_float :: float_test where
  "sample_float s =
     (if s = ''6.2'' \<or> s = ''18.4'' then Some False
      else if s = ''20.0'' then Some True else None)"

text \<open>
  A document whose batting table has a row with an empty runs cell, while the score says
  one wicket is down and no row is marked as out; and match data with batting entries of
  an earlier update.
\<close>

definition sample_batting_row :: "string \<Rightarrow> string \<Rightarrow> string option \<Rightarrow> batting_row" where
  "sample_batting_row n r footnote =
     \<lparr>row_tag = ''<tr class=ckt_row_item>'' @ n,
      row_name_cell = Some \<lparr>cell_text = n, cell_link = Some n, cell_classes = [], cell_strike = False\<rparr>,
      row_cells = [n, r, ''10'', ''1'', ''0'', ''100.00''],
      row_footnote = footnote\<rparr>"

definition failing_document :: document where
  "failing_document =
     empty_document
       \<lparr>team_sections := [batting_section, yet_to_bat_section],
        doc_batting_tables :=
          [\<lparr>bat_header = Some ''BATTERS R B 4s 6s SR'',
            bat_rows = [sample_batting_row ''Gaikwad'' ''30'' None,
                        sample_batting_row ''Conway'' [] None]\<rparr>]\<rparr>"

definition earlier_state :: match_state where
  "earlier_state =
     (init_match_data None None)
       \<lparr>batting_stats :=
          [Team1 \<mapsto> [\<lparr>bat_name = ''Gaikwad'', bat_runs = ''28'', bat_balls = ''9'', bat_fours = ''1'',
                       bat_sixes = ''0'', bat_strike_rate = ''100.00'', bat_dismissal = ''not out''\<rparr>]]\<rparr>"

text \<open>The match data after the teams of \<open>failing_document\<close> are extracted, and a document with a score text of three parts.\<close>

definition failing_teams_state :: match_state where
  "failing_teams_state = earlier_state\<lparr>teams := teams first_innings_state\<rparr>"

definition bad_score_document :: document where
  "bad_score_document =
     empty_document
       \<lparr>team_sections :=
          [\<lparr>name_elem = Some \<lparr>elem_text = ''CSK'', elem_classes = []\<rparr>,
            score_elem = Some \<lparr>elem_text = ''45/1/2 (6.2)'', elem_classes = [''team_score'']\<rparr>\<rparr>]\<rparr>"

text \<open>
  Match data where team 1 has batted its twenty overs, and a document with the batting
  tables of both teams, the second with an empty runs cell.
\<close>

definition second_innings_state :: match_state where
  "second_innings_state =
     (init_match_data None None)
       \<lparr>teams := [Team1 \<mapsto> sample_team ''CSK'' ''185/0'' ''185'' ''0'' ''20.0'',
                  Team2 \<mapsto> sample_team ''MI'' ''45/1'' ''45'' ''1'' ''6.2'']\<rparr>"

definition two_tables_document :: document where
  "two_tables_document =
     empty_document
       \<lparr>doc_batting_tables :=
          [\<lparr>bat_header = Some ''BATTERS R B 4s 6s SR'',
            bat_rows = [sample_batting_row ''Gaikwad'' ''30'' None]\<rparr>,
           \<lparr>bat_header = Some ''BATTERS R B 4s 6s SR'',
            bat_rows = [sample_batting_row ''Rohit'' ''30'' None,
                        sample_batting_row ''Kishan'' [] None]\<rparr>]\<rparr>"

text \<open>
  Two batting tables of six rows with four rows marked as out by their footnotes: in the
  first the two rows without a footnote have the highest runs, in the second the lowest.
\<close>

definition six_rows_top_not_out :: "batting_row list" where
  "six_rows_top_not_out =
     [sample_batting_row ''Gaikwad'' ''72'' None,
      sample_batting_row ''Conway'' ''45'' None,
      sample_batting_row ''Rahane'' ''10'' (Some ''c Kishan b Bumrah''),
      sample_batting_row ''Dube'' ''5'' (Some ''b Boult''),
      sample_batting_row ''Jadeja'' ''3'' (Some ''lbw b Chawla''),
      sample_batting_row ''Dhoni'' ''1'' (Some ''run out (Sharma)'')]"

definition six_rows_tail_not_out :: "batting_row list" where
  "six_rows_tail_not_out =
     [sample_batting_row ''Gaikwad'' ''72'' (Some ''c Kishan b Bumrah''),
      sample_batting_row ''Conway'' ''45'' (Some ''b Boult''),
      sample_batting_row ''Rahane'' ''10'' (Some ''lbw b Chawla''),
      sample_batting_row ''Dube'' ''5'' (Some ''run out (Sharma)''),
      sample_batting_row ''Jadeja'' ''3'' None,
      sample_batting_row ''Dhoni'' ''1'' None]"

definition sample_batsman :: "string \<Rightarrow> string \<Rightarrow> string \<Rightarrow> bool \<Rightarrow> batsman" where
  "sample_batsman n r d out =
     \<lparr>b_name = n, b_runs = r, b_balls = ''10'', b_fours = ''1'', b_sixes = ''0'',
      b_strike_rate = ''100.00'', b_dismissal = d, b_is_out = out,
      b_row = ''<tr class=ckt_row_item>'' @ n\<rparr>"

text \<open>
  A numeric token of a score text: a non-empty string of digits and dots, as the runs,
  wickets and overs of \<open>185/6 (20.0)\<close> are.
\<close>

definition numeric_char :: "char \<Rightarrow> bool" where
  "numeric_char c = (is_digit c \<or> c = CHR ''.'')"

definition numeric_text :: "string \<Rightarrow> bool" where
  "numeric_text s = (s \<noteq> [] \<and> list_all numeric_char s)"

section \<open>Properties of the string functions\<close>


lemma dropWhile_hd_id: "s \<noteq> [] \<Longrightarrow> \<not> P (hd s) \<Longrightarrow> dropWhile P s = s"
  by (cases s) auto

lemma strip_core:
  assumes "s \<noteq> []" "\<not> is_space (hd s)" "\<not> is_space (last s)" "list_all is_space w"
  shows "strip (s @ w) = s"
proof -
  have a: "dropWhile is_space (s @ w) = s @ w"
    using assms by (intro dropWhile_hd_id) auto
  have b: "dropWhile is_space (rev w @ rev s) = dropWhile is_space (rev s)"
    using assms(4) by (intro dropWhile_append2) (auto simp: list_all_iff)
  have c: "dropWhile is_space (rev s) = rev s"
    using assms by (intro dropWhile_hd_id) (auto simp: hd_rev)
  show ?thesis by (simp add: strip_def a b c)
qed

lemma starts_with_set: "starts_with p s \<Longrightarrow> set p \<subseteq> set s"
  by (induction p s rule: starts_with.induct) auto

lemma contains_set: "contains p s \<Longrightarrow> set p \<subseteq> set s"
proof (induction s)
  case Nil
  then show ?case by simp
next
  case (Cons a s)
  then show ?case using starts_with_set [of p "a # s"] by auto
qed

lemma not_upper_notin:
  "\<not> is_upper c \<Longrightarrow> c \<notin> set ''ABCDEFGHIJKLMNOPQRSTUVWXYZ''"
  unfolding is_upper_def Let_def by (rule notI) auto

lemma lower_char_id: "\<not> is_upper c \<Longrightarrow> lower_char c = c"
proof -
  assume "\<not> is_upper c"
  then have a: "c \<notin> set ''ABCDEFGHIJKLMNOPQRSTUVWXYZ''" by (rule not_upper_notin)
  have "map_of (zip ''ABCDEFGHIJKLMNOPQRSTUVWXYZ'' ''abcdefghijklmnopqrstuvwxyz'') c = None"
    by (subst map_of_zip_is_None) (use a in simp_all)
  then show ?thesis by (simp only: lower_char_def option.case)
qed

lemma lower_id: "list_all (\<lambda>c. \<not> is_upper c) s \<Longrightarrow> lower s = s"
  by (simp add: lower_def lower_char_id list_all_iff map_idI)

lemma split_on_notin: "d \<notin> set a \<Longrightarrow> split_on d a = [a]"
  by (induction a) auto

lemma split_on_app: "d \<notin> set a \<Longrightarrow> split_on d (a @ d # b) = a # split_on d b"
  by (induction a) auto

lemma numeric_char_facts:
  "numeric_char c \<Longrightarrow> \<not> is_space c \<and> c \<noteq> CHR ''('' \<and> c \<noteq> CHR '')'' \<and> c \<noteq> CHR ''/'' \<and> \<not> is_upper c \<and> c \<noteq> CHR ''y''"
  by (auto simp: numeric_char_def is_digit_def is_space_def is_upper_def Let_def)

lemma numeric_text_facts:
  assumes "numeric_text s"
  shows "CHR ''('' \<notin> set s" "CHR '')'' \<notin> set s" "CHR ''/'' \<notin> set s" "CHR ''y'' \<notin> set s"
        "\<not> is_space (hd s)" "\<not> is_space (last s)" "list_all (\<lambda>c. \<not> is_upper c) s" "s \<noteq> []"
        "list_all (\<lambda>c. \<not> is_space c) s"
  using assms numeric_char_facts by (auto simp: numeric_text_def list_all_iff)

lemma strip_numeric: "numeric_text s \<Longrightarrow> strip s = s"
  using strip_core [of s "[]"] numeric_text_facts [of s] by simp

lemma first_word_numeric: "numeric_text s \<Longrightarrow> first_word s = s"
  using numeric_text_facts [of s]
  by (simp add: first_word_def dropWhile_hd_id list_all_iff)

lemma split_score_form1:
  assumes "numeric_text R" "numeric_text W" "numeric_text Ov"
  shows "split_score (R @ ''/'' @ W @ '' ('' @ Ov @ '')'') = Inr (R @ ''/'' @ W, R, W, Ov)"
proof -
  have sp: "split_on CHR ''('' (R @ ''/'' @ W @ '' ('' @ Ov @ '')'') = [R @ ''/'' @ W @ '' '', Ov @ '')'']"
    using split_on_app [of "CHR ''(''" "R @ ''/'' @ W @ '' ''" "Ov @ '')''" ]
      split_on_notin [of "CHR ''(''" "Ov @ '')''"] numeric_text_facts [OF assms(1)] numeric_text_facts [OF assms(2)]
      numeric_text_facts [OF assms(3)]
    by simp
  have st: "strip (R @ ''/'' @ W @ '' '') = R @ ''/'' @ W"
    using strip_core [of "R @ ''/'' @ W" "'' ''"] numeric_text_facts [OF assms(1)] numeric_text_facts [OF assms(2)]
    by (simp add: is_space_def)
  have fo: "filter (\<lambda>c. c \<noteq> CHR '')'') Ov = Ov"
    using numeric_text_facts(2) [OF assms(3)] by (auto simp: filter_id_conv)
  have sl: "split_on CHR ''/'' (R @ ''/'' @ W) = [R, W]"
    using split_on_app [of "CHR ''/''" R W] split_on_notin [of "CHR ''/''" W]
      numeric_text_facts [OF assms(1)] numeric_text_facts [OF assms(2)] by simp
  show ?thesis
    by (simp add: split_score_def sp st fo sl strip_numeric [OF assms(3)] del: append.simps split_on.simps)
qed

lemma split_score_form2:
  assumes "numeric_text R" "numeric_text Ov"
  shows "split_score (R @ '' ('' @ Ov @ '')'') = Inr (R, R, ''0'', Ov)"
proof -
  have sp: "split_on CHR ''('' (R @ '' ('' @ Ov @ '')'') = [R @ '' '', Ov @ '')'']"
    using split_on_app [of "CHR ''(''" "R @ '' ''" "Ov @ '')''" ]
      split_on_notin [of "CHR ''(''" "Ov @ '')''"] numeric_text_facts [OF assms(1)] numeric_text_facts [OF assms(2)]
    by simp
  have st: "strip (R @ '' '') = R"
    using strip_core [of "R" "'' ''"] numeric_text_facts [OF assms(1)]
    by (simp add: is_space_def)
  have fo: "filter (\<lambda>c. c \<noteq> CHR '')'') Ov = Ov"
    using numeric_text_facts(2) [OF assms(2)] by (auto simp: filter_id_conv)
  show ?thesis
    using numeric_text_facts(3) [OF assms(1)]
    by (simp add: split_score_def sp st fo strip_numeric [OF assms(2)] del: append.simps split_on.simps)
qed

lemma not_yet_to_bat:
  assumes "list_all (\<lambda>c. \<not> is_upper c) s" "CHR ''y'' \<notin> set s"
  shows "\<not> contains ''yet to bat'' (lower s)"
  using contains_set [of "''yet to bat''" s] assms by (auto simp: lower_id)

lemma innings_check_ok:
  assumes "numeric_text Ov" "fl Ov \<noteq> None"
  shows "\<exists>b. innings_check fl Ov W = Inr b"
  using assms by (auto simp: innings_check_def first_word_numeric)

lemma won_checks_ok:
  assumes "tm k = Some td"
  shows "\<exists>w. won_checks k sec tm = (None, tm(k \<mapsto> td\<lparr>t_won := w\<rparr>))"
proof (cases "has_won_class (name_elem sec) \<or> has_won_class (score_elem sec)")
  case True
  then have "won_checks k sec tm = (None, tm(k \<mapsto> td\<lparr>t_won := Some True\<rparr>))"
    using assms by (auto simp: won_checks_def set_won_def)
  then show ?thesis by blast
next
  case False
  have "tm(k \<mapsto> td\<lparr>t_won := t_won td\<rparr>) = tm" using assms by auto
  then have "won_checks k sec tm = (None, tm(k \<mapsto> td\<lparr>t_won := t_won td\<rparr>))"
    using False by (simp add: won_checks_def)
  then show ?thesis by blast
qed

lemma step_numeric:
  assumes se: "score_elem section = Some se"
    and nyb: "\<not> contains ''yet to bat'' (lower (strip (elem_text se)))"
    and sp: "split_score (strip (elem_text se)) = Inr (score, runs, wickets, overs)"
    and ic: "innings_check fl overs wickets = Inr ic"
    and slot: "name_elem section \<noteq> None \<or> tm k \<noteq> None"
  shows "\<exists>td tm'. team_section_step fl k section tm = (None, tm') \<and> tm' k = Some td \<and>
           t_score td = Some score \<and> t_runs td = Some runs \<and> t_wickets td = Some wickets \<and>
           t_overs td = Some overs \<and> t_innings_complete td = Some ic"
proof -
  define tm1 where "tm1 = (case name_elem section of None \<Rightarrow> tm
                            | Some ne \<Rightarrow> tm(k \<mapsto> new_team (strip (elem_text ne))))"
  have "tm1 k \<noteq> None"
    using slot by (cases "name_elem section") (auto simp: tm1_def)
  then obtain td0 where td0: "tm1 k = Some td0" by auto
  define td1 where "td1 = td0\<lparr>t_score := Some score, t_runs := Some runs, t_wickets := Some wickets,
                              t_overs := Some overs, t_innings_complete := Some ic\<rparr>"
  have step: "team_section_step fl k section tm = won_checks k section (tm1(k \<mapsto> td1))"
    using se nyb sp ic td0 by (simp add: team_section_step_def tm1_def [symmetric] td1_def)
  obtain w where "won_checks k section (tm1(k \<mapsto> td1)) = (None, (tm1(k \<mapsto> td1))(k \<mapsto> td1\<lparr>t_won := w\<rparr>))"
    using won_checks_ok [of "tm1(k \<mapsto> td1)" k td1 "section"] by auto
  then show ?thesis using step by (simp add: td1_def)
qed



text \<open>
  Claim C9. For a score text \<open>R/W (O)\<close> of numeric tokens, where \<open>float(O)\<close> does not
  raise and the team's entry exists (its name element is found in this section, or an
  earlier update has left the entry), the round stores runs \<open>R\<close>, wickets \<open>W\<close> and overs
  \<open>O\<close>; for a score text \<open>R (O)\<close> it stores runs \<open>R\<close> and the wickets "0".
\<close>

theorem score_text_forms:
  assumes "numeric_text R" "numeric_text W" "numeric_text Ov"
    and "float_ge_20 Ov \<noteq> None"
    and "score_elem section = Some se"
    and "name_elem section \<noteq> None \<or> tm team_key \<noteq> None"
  shows "(strip (elem_text se) = R @ ''/'' @ W @ '' ('' @ Ov @ '')'' \<longrightarrow>
           (\<exists>td tm'. team_section_step float_ge_20 team_key section tm = (None, tm') \<and>
              tm' team_key = Some td \<and>
              t_runs td = Some R \<and> t_wickets td = Some W \<and> t_overs td = Some Ov)) \<and>
         (strip (elem_text se) = R @ '' ('' @ Ov @ '')'' \<longrightarrow>
           (\<exists>td tm'. team_section_step float_ge_20 team_key section tm = (None, tm') \<and>
              tm' team_key = Some td \<and>
              t_runs td = Some R \<and> t_wickets td = Some ''0'' \<and> t_overs td = Some Ov))"
proof (intro conjI impI)
  assume form: "strip (elem_text se) = R @ ''/'' @ W @ '' ('' @ Ov @ '')''"
  have nyb: "\<not> contains ''yet to bat'' (lower (strip (elem_text se)))"
    unfolding form using numeric_text_facts [OF assms(1)] numeric_text_facts [OF assms(2)] numeric_text_facts [OF assms(3)]
    by (intro not_yet_to_bat) (auto simp: is_upper_def)
  have sp: "split_score (strip (elem_text se)) = Inr (R @ ''/'' @ W, R, W, Ov)"
    unfolding form by (rule split_score_form1 [OF assms(1,2,3)])
  obtain ic where ic: "innings_check float_ge_20 Ov W = Inr ic"
    using innings_check_ok [where fl = float_ge_20, OF assms(3,4)] by blast
  from step_numeric [where fl = float_ge_20 and k = team_key and tm = tm, OF assms(5) nyb sp ic assms(6)]
  show "\<exists>td tm'. team_section_step float_ge_20 team_key section tm = (None, tm') \<and>
              tm' team_key = Some td \<and>
              t_runs td = Some R \<and> t_wickets td = Some W \<and> t_overs td = Some Ov"
    by blast
next
  assume form: "strip (elem_text se) = R @ '' ('' @ Ov @ '')''"
  have nyb: "\<not> contains ''yet to bat'' (lower (strip (elem_text se)))"
    unfolding form using numeric_text_facts [OF assms(1)] numeric_text_facts [OF assms(3)]
    by (intro not_yet_to_bat) (auto simp: is_upper_def)
  have sp: "split_score (strip (elem_text se)) = Inr (R, R, ''0'', Ov)"
    unfolding form by (rule split_score_form2 [OF assms(1,3)])
  obtain ic where ic: "innings_check float_ge_20 Ov ''0'' = Inr ic"
    using innings_check_ok [where fl = float_ge_20, OF assms(3,4)] by blast
  from step_numeric [where fl = float_ge_20 and k = team_key and tm = tm, OF assms(5) nyb sp ic assms(6)]
  show "\<exists>td tm'. team_section_step float_ge_20 team_key section tm = (None, tm') \<and>
              tm' team_key = Some td \<and>
              t_runs td = Some R \<and> t_wickets td = Some ''0'' \<and> t_overs td = Some Ov"
    by blast
qed

theorem score_text_forms_witness:
  "(\<exists>td tm'. team_section_step (\<lambda>s. if s = ''20.0'' then Some True else None) Team1
       \<lparr>name_elem = Some \<lparr>elem_text = ''MI'', elem_classes = []\<rparr>,
        score_elem = Some \<lparr>elem_text = '' 185/6 (20.0) '', elem_classes = []\<rparr>\<rparr> Map.empty = (None, tm') \<and>
       tm' Team1 = Some td \<and>
       t_runs td = Some ''185'' \<and> t_wickets td = Some ''6'' \<and> t_overs td = Some ''20.0'')"
  using score_text_forms [of "''185''" "''6''" "''20.0''" "\<lambda>s. if s = ''20.0'' then Some True else None"
      "\<lparr>name_elem = Some \<lparr>elem_text = ''MI'', elem_classes = []\<rparr>,
        score_elem = Some \<lparr>elem_text = '' 185/6 (20.0) '', elem_classes = []\<rparr>\<rparr>"
      "\<lparr>elem_text = '' 185/6 (20.0) '', elem_classes = []\<rparr>" Map.empty Team1]
  by (simp add: numeric_text_def numeric_char_def is_digit_def strip_def is_space_def)


section \<open>Calls that return\<close>

text \<open>
  Nothing leaves a try statement, and the call of each extractor returns, with the match
  data as its block has left them. So the five calls of \<open>parse_html\<close> are all made.
\<close>

lemma try_except_returns: "try_except block = (None, snd block)"
  by (cases block) (simp add: try_except_def split: option.splits)

lemma and_then_returns: "and_then (None, st) next_statement = next_statement st"
  by (simp add: and_then_def)

lemma parse_match_info_returns:
  "parse_match_info_call soup st = (None, parse_match_info soup st)"
  by (simp add: parse_match_info_call_def try_except_returns)

lemma parse_teams_and_scores_data:
  "parse_teams_and_scores float_ge_20 soup st = snd (parse_teams_and_scores_body float_ge_20 soup st)"
  by (simp add: parse_teams_and_scores_def parse_teams_and_scores_call_def try_except_returns)

lemma parse_teams_and_scores_returns:
  "parse_teams_and_scores_call float_ge_20 soup st = (None, parse_teams_and_scores float_ge_20 soup st)"
  by (simp add: parse_teams_and_scores_def parse_teams_and_scores_call_def try_except_returns)

lemma parse_batting_stats_data:
  "parse_batting_stats soup st = snd (parse_batting_stats_body soup st)"
  by (simp add: parse_batting_stats_def parse_batting_stats_call_def try_except_returns)

lemma parse_batting_stats_returns:
  "parse_batting_stats_call soup st = (None, parse_batting_stats soup st)"
  by (simp add: parse_batting_stats_def parse_batting_stats_call_def try_except_returns)

lemma parse_bowling_stats_returns:
  "parse_bowling_stats_call soup st = (None, parse_bowling_stats soup st)"
  by (simp add: parse_bowling_stats_call_def try_except_returns and_then_returns)

lemma parse_commentary_returns:
  "parse_commentary_call soup st = (None, parse_commentary soup st)"
  by (simp add: parse_commentary_call_def try_except_returns)

lemma parse_html_block_returns:
  "parse_html_block float_ge_20 soup st =
     (None, parse_commentary soup
              (parse_bowling_stats soup
                (parse_batting_stats soup
                  (parse_teams_and_scores float_ge_20 soup
                    (parse_match_info soup st)))))"
  by (simp add: parse_html_block_def parse_match_info_returns parse_teams_and_scores_returns
      parse_batting_stats_returns parse_bowling_stats_returns parse_commentary_returns
      and_then_returns)

lemma parse_html_data:
  "parse_html float_ge_20 html_content st =
     (case html_content of
        None \<Rightarrow> st
      | Some soup \<Rightarrow>
          parse_commentary soup
            (parse_bowling_stats soup
              (parse_batting_stats soup
                (parse_teams_and_scores float_ge_20 soup
                  (parse_match_info soup st)))))"
  by (simp add: parse_html_def parse_html_call_def parse_html_block_returns try_except_returns
      split: option.splits)

lemma parse_html_returns:
  "parse_html_call float_ge_20 html_content st = (None, parse_html float_ge_20 html_content st)"
  by (simp add: parse_html_def parse_html_call_def try_except_returns split: option.splits)

lemma update_data:
  "update float_ge_20 now html_content st =
     (case html_content of
        None \<Rightarrow> (Inr None, st)
      | Some soup \<Rightarrow>
          (let st1 = validate_data ((parse_html float_ge_20 html_content st)\<lparr>last_updated := now\<rparr>)
           in (Inr (Some st1), st1)))"
  by (simp add: update_def parse_html_returns Let_def split: option.splits)

section \<open>What each extractor leaves alone\<close>

lemma match_info_frame:
  "teams (parse_match_info soup st) = teams st"
  "batting_stats (parse_match_info soup st) = batting_stats st"
  "bowling_stats (parse_match_info soup st) = bowling_stats st"
  "commentary (parse_match_info soup st) = commentary st"
  "last_updated (parse_match_info soup st) = last_updated st"
  by (simp_all add: parse_match_info_def Let_def)

lemma teams_frame:
  "match_info (parse_teams_and_scores fl soup st) = match_info st"
  "batting_stats (parse_teams_and_scores fl soup st) = batting_stats st"
  "bowling_stats (parse_teams_and_scores fl soup st) = bowling_stats st"
  "commentary (parse_teams_and_scores fl soup st) = commentary st"
  "last_updated (parse_teams_and_scores fl soup st) = last_updated st"
  by (simp_all add: parse_teams_and_scores_data parse_teams_and_scores_body_def split: prod.splits)

lemma batting_frame:
  "teams (parse_batting_stats soup st) = teams st"
  "bowling_stats (parse_batting_stats soup st) = bowling_stats st"
  "commentary (parse_batting_stats soup st) = commentary st"
  "last_updated (parse_batting_stats soup st) = last_updated st"
  by (simp_all add: parse_batting_stats_data parse_batting_stats_body_def split: prod.splits)

lemma infer_for_frame:
  "match_info (infer_for a b st) = match_info st"
  "teams (infer_for a b st) = teams st"
  "batting_stats (infer_for a b st) = batting_stats st"
  "commentary (infer_for a b st) = commentary st"
  "last_updated (infer_for a b st) = last_updated st"
  by (simp_all add: infer_for_def Let_def)

lemma bowling_frame:
  "match_info (parse_bowling_stats soup st) = match_info st"
  "teams (parse_bowling_stats soup st) = teams st"
  "batting_stats (parse_bowling_stats soup st) = batting_stats st"
  "commentary (parse_bowling_stats soup st) = commentary st"
  "last_updated (parse_bowling_stats soup st) = last_updated st"
  by (simp_all add: parse_bowling_stats_def Let_def infer_missing_bowling_stats_def infer_for_frame)

lemma commentary_frame:
  "match_info (parse_commentary soup st) = match_info st"
  "teams (parse_commentary soup st) = teams st"
  "batting_stats (parse_commentary soup st) = batting_stats st"
  "bowling_stats (parse_commentary soup st) = bowling_stats st"
  "last_updated (parse_commentary soup st) = last_updated st"
  by (simp_all add: parse_commentary_def Let_def)

lemma validate_frame:
  "match_info (validate_data st) = match_info st"
  "teams (validate_data st) = teams st"
  "commentary (validate_data st) = commentary st"
  "last_updated (validate_data st) = last_updated st"
  by (simp_all add: validate_data_def)

lemma length_map_filter_le: "length (List.map_filter f xs) \<le> length xs"
  by (induction xs) (auto simp: List.map_filter_simps split: option.splits)

lemma commentary_parse_html:
  "commentary (parse_html fl (Some soup) st) =
     (if find_commentary_items soup = [] then commentary st
      else List.map_filter commentary_entry_of (take 20 (find_commentary_items soup)))"
  by (simp add: parse_html_data parse_commentary_def Let_def bowling_frame batting_frame teams_frame match_info_frame)

section \<open>Properties of the bowling lists\<close>

lemma existing_bowlers_None:
  "existing_bowlers l n = None \<longleftrightarrow> n \<notin> set (map bowl_name l)"
proof -
  have "map fst (zip (map bowl_name l) [0..<length l]) = map bowl_name l" by simp
  then have "fst ` set (zip (map bowl_name l) [0..<length l]) = set (map bowl_name l)"
    by (metis set_map)
  then show ?thesis by (simp add: existing_bowlers_def map_of_eq_None_iff)
qed

lemma existing_bowlers_Some:
  assumes "existing_bowlers l n = Some i"
  shows "i < length l \<and> bowl_name (l ! i) = n"
proof -
  from assms have "(n, i) \<in> set (zip (map bowl_name l) [0..<length l])"
    by (auto simp: existing_bowlers_def dest: map_of_SomeD)
  then show ?thesis by (auto simp: set_zip)
qed

lemma names_upsert_present:
  assumes "existing_bowlers l (bowl_name b) = Some i"
  shows "map bowl_name (l[i := b]) = map bowl_name l"
  using existing_bowlers_Some [OF assms] by (simp add: map_update list_update_same_conv)

lemma names_upsert:
  "map bowl_name (upsert l b) =
     (if bowl_name b \<in> set (map bowl_name l) then map bowl_name l else map bowl_name l @ [bowl_name b])"
proof (cases "existing_bowlers l (bowl_name b)")
  case None
  then show ?thesis using existing_bowlers_None [of l "bowl_name b"] by (simp add: upsert_def)
next
  case (Some i)
  then have "bowl_name b \<in> set (map bowl_name l)"
    using existing_bowlers_None [of l "bowl_name b"] by auto
  then show ?thesis using Some names_upsert_present [OF Some] by (simp add: upsert_def)
qed

lemma upsert_mem: "b \<in> set (upsert l b)"
proof (cases "existing_bowlers l (bowl_name b)")
  case None
  then show ?thesis by (simp add: upsert_def)
next
  case (Some i)
  then show ?thesis using existing_bowlers_Some [OF Some] by (simp add: upsert_def set_update_memI)
qed

lemma upsert_keeps:
  assumes "x \<in> set l" "bowl_name x \<noteq> bowl_name b"
  shows "x \<in> set (upsert l b)"
proof (cases "existing_bowlers l (bowl_name b)")
  case None
  then show ?thesis using assms by (simp add: upsert_def)
next
  case (Some i)
  from assms(1) obtain j where j: "j < length l" "l ! j = x" by (auto simp: in_set_conv_nth)
  with existing_bowlers_Some [OF Some] assms(2) have "j \<noteq> i" by auto
  then have "l[i := b] ! j = x" using j by simp
  then show ?thesis using Some j by (auto simp: upsert_def in_set_conv_nth)
qed


lemma unique_bowlers_seen_set:
  "set s1 = set s2 \<Longrightarrow> unique_bowlers s1 xs = unique_bowlers s2 xs"
proof (induction xs arbitrary: s1 s2)
  case Nil
  then show ?case by simp
next
  case (Cons x xs)
  have "unique_bowlers (bowl_name x # s1) xs = unique_bowlers (bowl_name x # s2) xs"
    using Cons.prems by (intro Cons.IH) simp
  then show ?case using Cons.prems Cons.IH [of s1 s2] by simp
qed

lemma names_foldl_upsert:
  "map bowl_name (foldl upsert l ps) =
     map bowl_name l @ map bowl_name (unique_bowlers (map bowl_name l) ps)"
proof (induction ps arbitrary: l)
  case Nil
  then show ?case by simp
next
  case (Cons b ps)
  show ?case
  proof (cases "bowl_name b \<in> set (map bowl_name l)")
    case True
    then show ?thesis using Cons.IH [of "upsert l b"] by (simp add: names_upsert)
  next
    case False
    have "unique_bowlers (map bowl_name l @ [bowl_name b]) ps = unique_bowlers (bowl_name b # map bowl_name l) ps"
      by (rule unique_bowlers_seen_set) auto
    then show ?thesis using False Cons.IH [of "upsert l b"] by (simp add: names_upsert)
  qed
qed

lemma foldl_upsert_keeps:
  "x \<in> set l \<Longrightarrow> bowl_name x \<notin> set (map bowl_name ps) \<Longrightarrow> x \<in> set (foldl upsert l ps)"
proof (induction ps arbitrary: l)
  case Nil
  then show ?case by simp
next
  case (Cons b ps)
  then have "x \<in> set (upsert l b)" by (intro upsert_keeps) auto
  then show ?case using Cons by simp
qed

lemma foldl_upsert_last:
  "filter (\<lambda>b. bowl_name b = n) ps \<noteq> [] \<Longrightarrow>
     last (filter (\<lambda>b. bowl_name b = n) ps) \<in> set (foldl upsert l ps)"
proof (induction ps arbitrary: l)
  case Nil
  then show ?case by simp
next
  case (Cons b ps)
  show ?case
  proof (cases "filter (\<lambda>b. bowl_name b = n) ps = []")
    case True
    with Cons.prems have nb: "bowl_name b = n" by (auto split: if_splits)
    from True have "n \<notin> set (map bowl_name ps)" by (auto simp: filter_empty_conv)
    then have "b \<in> set (foldl upsert (upsert l b) ps)"
      using nb by (intro foldl_upsert_keeps upsert_mem) auto
    then show ?thesis using True nb by simp
  next
    case False
    then show ?thesis using Cons.IH [of "upsert l b"] by simp
  qed
qed


lemma bowler_row_step_upsert:
  "bs k = Some l \<Longrightarrow>
     bowler_row_step k bs row =
       (case parse_bowler_row row of None \<Rightarrow> bs | Some b \<Rightarrow> bs(k \<mapsto> upsert l b))"
  by (simp add: bowler_row_step_def add_bowler_if_not_exists_def split: option.splits)

lemma foldl_row_step:
  "bs k = Some l \<Longrightarrow>
     foldl (bowler_row_step k) bs rows = bs(k \<mapsto> foldl upsert l (List.map_filter parse_bowler_row rows))"
proof (induction rows arbitrary: bs l)
  case Nil
  then show ?case by (auto simp: List.map_filter_simps)
next
  case (Cons row rows)
  show ?case
  proof (cases "parse_bowler_row row")
    case None
    then show ?thesis using Cons by (simp add: bowler_row_step_upsert List.map_filter_simps)
  next
    case (Some b)
    have "foldl (bowler_row_step k) (bs(k \<mapsto> upsert l b)) rows =
            (bs(k \<mapsto> upsert l b))(k \<mapsto> foldl upsert (upsert l b) (List.map_filter parse_bowler_row rows))"
      by (rule Cons.IH) simp
    then show ?thesis using Some Cons.prems by (simp add: bowler_row_step_upsert List.map_filter_simps)
  qed
qed

lemma map_filter_mem:
  "x \<in> set xs \<Longrightarrow> f x = Some y \<Longrightarrow> y \<in> set (List.map_filter f xs)"
  by (auto simp: List.map_filter_def intro!: image_eqI [where x = x])

lemma foldl_upsert_name:
  assumes "b \<in> set ps"
  shows "bowl_name b \<in> set (map bowl_name (foldl upsert l ps))"
proof -
  have ne: "filter (\<lambda>x. bowl_name x = bowl_name b) ps \<noteq> []"
    using assms by (auto simp: filter_empty_conv)
  then have "last (filter (\<lambda>x. bowl_name x = bowl_name b) ps) \<in> set (filter (\<lambda>x. bowl_name x = bowl_name b) ps)"
    by (rule last_in_set)
  then have eq: "bowl_name b = bowl_name (last (filter (\<lambda>x. bowl_name x = bowl_name b) ps))" by simp
  have mem: "last (filter (\<lambda>x. bowl_name x = bowl_name b) ps) \<in> set (foldl upsert l ps)"
    by (rule foldl_upsert_last [OF ne])
  have "bowl_name b \<in> bowl_name ` set (foldl upsert l ps)"
    using eq mem by (rule image_eqI)
  then show ?thesis by simp
qed

lemma foldl_upsert_names_mono:
  "set (map bowl_name l) \<subseteq> set (map bowl_name (foldl upsert l ps))"
  by (simp add: names_foldl_upsert)

lemma row_step_other:
  "k' \<noteq> k \<Longrightarrow> bowler_row_step k bs row k' = bs k'"
  by (auto simp: bowler_row_step_def add_bowler_if_not_exists_def split: option.splits)

lemma foldl_row_step_other:
  "k' \<noteq> k \<Longrightarrow> foldl (bowler_row_step k) bs rows k' = bs k'"
  by (induction rows arbitrary: bs) (auto simp: row_step_other)

lemma bowling_loop_other:
  "k' \<noteq> k \<Longrightarrow> bowling_loop (Some k) tables n bs k' = bs k'"
proof (induction tables arbitrary: n bs)
  case Nil
  then show ?case by simp
next
  case (Cons table tables)
  show ?case
  proof (cases "identify_table table")
    case None
    then show ?thesis using Cons by simp
  next
    case (Some h)
    show ?thesis
    proof (cases "skip_table (Some k) (assign_team table n)")
      case True
      then show ?thesis using Some Cons by simp
    next
      case False
      then have eq: "assign_team table n = k" by (simp add: skip_table_def)
      show ?thesis using Some False Cons eq
        by (auto simp: Let_def foldl_row_step_other split: option.splits)
    qed
  qed
qed


lemma bowling_loop_mono:
  assumes "\<forall>k. bs k \<noteq> None" "bs k = Some l" "x \<in> set (map bowl_name l)"
  shows "\<exists>l'. bowling_loop cbt tables n bs k = Some l' \<and> x \<in> set (map bowl_name l')"
  using assms
proof (induction tables arbitrary: n bs l)
  case Nil
  then show ?case by simp
next
  case (Cons table tables)
  show ?case
  proof (cases "identify_table table")
    case None
    then show ?thesis using Cons by simp
  next
    case (Some h)
    show ?thesis
    proof (cases "skip_table cbt (assign_team table n)")
      case True
      then show ?thesis using Some Cons by simp
    next
      case False
      define team where "team = assign_team table n"
      obtain m where m: "bs team = Some m" using Cons.prems(1) by blast
      define m' where "m' = foldl upsert m (List.map_filter parse_bowler_row (bowler_rows_of h table))"
      have f: "foldl (bowler_row_step team) bs (bowler_rows_of h table) = bs(team \<mapsto> m')"
        using foldl_row_step [of bs team m "bowler_rows_of h table"] m by (simp add: m'_def)
      have step: "bowling_loop cbt (table # tables) n bs =
              bowling_loop cbt tables (if m' \<noteq> [] then n + 1 else n) (bs(team \<mapsto> m'))"
        using Some False f by (simp add: team_def [symmetric] Let_def)
      have dom: "\<forall>k. (bs(team \<mapsto> m')) k \<noteq> None" using Cons.prems(1) by simp
      obtain l1 where l1: "(bs(team \<mapsto> m')) k = Some l1" "x \<in> set (map bowl_name l1)"
      proof (cases "k = team")
        case True
        then have "x \<in> set (map bowl_name m')"
          using Cons.prems(2,3) m foldl_upsert_names_mono [of m] by (auto simp: m'_def)
        then show ?thesis using True that by simp
      next
        case False
        then show ?thesis using Cons.prems(2,3) that by simp
      qed
      show ?thesis unfolding step by (rule Cons.IH [OF dom l1])
    qed
  qed
qed

lemma bowling_loop_processed:
  assumes "\<forall>k. bs k \<noteq> None" "table \<in> set tables" "identify_table table = Some h"
    and "row \<in> set (bowler_rows_of h table)" "parse_bowler_row row = Some b"
  shows "\<exists>k l. bowling_loop None tables n bs k = Some l \<and> bowl_name b \<in> set (map bowl_name l)"
  using assms(1,2)
proof (induction tables arbitrary: n bs)
  case Nil
  then show ?case by simp
next
  case (Cons t tables)
  show ?case
  proof (cases "identify_table t")
    case None
    then have "table \<in> set tables" using Cons.prems(2) assms(3) by auto
    then show ?thesis using None Cons by simp
  next
    case (Some h')
    define team where "team = assign_team t n"
    obtain m where m: "bs team = Some m" using Cons.prems(1) by blast
    define m' where "m' = foldl upsert m (List.map_filter parse_bowler_row (bowler_rows_of h' t))"
    have f: "foldl (bowler_row_step team) bs (bowler_rows_of h' t) = bs(team \<mapsto> m')"
      using foldl_row_step [of bs team m "bowler_rows_of h' t"] m by (simp add: m'_def)
    have step: "bowling_loop None (t # tables) n bs =
              bowling_loop None tables (if m' \<noteq> [] then n + 1 else n) (bs(team \<mapsto> m'))"
      using Some f by (simp add: team_def [symmetric] Let_def skip_table_def)
    have dom: "\<forall>k. (bs(team \<mapsto> m')) k \<noteq> None" using Cons.prems(1) by simp
    show ?thesis
    proof (cases "table = t")
      case True
      then have "h' = h" using Some assms(3) by simp
      then have "b \<in> set (List.map_filter parse_bowler_row (bowler_rows_of h' t))"
        using assms(4,5) True by (auto intro: map_filter_mem)
      then have "bowl_name b \<in> set (map bowl_name m')"
        unfolding m'_def by (rule foldl_upsert_name)
      then have "\<exists>l'. bowling_loop None tables (if m' \<noteq> [] then n + 1 else n) (bs(team \<mapsto> m')) team = Some l'
                   \<and> bowl_name b \<in> set (map bowl_name l')"
        by (intro bowling_loop_mono [OF dom]) auto
      then show ?thesis unfolding step by blast
    next
      case False
      then have "table \<in> set tables" using Cons.prems(2) by auto
      then show ?thesis unfolding step by (intro Cons.IH [OF dom])
    qed
  qed
qed

text \<open>
  Claim C2, as amended. No exception leaves the call of an extractor, whatever its block
  raises, so the block of \<open>parse_html\<close> raises nothing and all five extractors are called;
  no exception leaves \<open>parse_html\<close>, and none leaves \<open>update\<close>: every call of \<open>update\<close>
  returns. With a fetched document it returns the match data that it leaves, stamped
  with the time of the update; with no fetched document it returns without a value and
  leaves the match data as they were.
\<close>

theorem update_returns:
  "fst (parse_match_info_call soup st) = None \<and>
   fst (parse_teams_and_scores_call float_ge_20 soup st) = None \<and>
   fst (parse_batting_stats_call soup st) = None \<and>
   fst (parse_bowling_stats_call soup st) = None \<and>
   fst (parse_commentary_call soup st) = None \<and>
   parse_html_block float_ge_20 soup st =
     (None, parse_commentary soup (parse_bowling_stats soup (parse_batting_stats soup
              (parse_teams_and_scores float_ge_20 soup (parse_match_info soup st))))) \<and>
   fst (parse_html_call float_ge_20 html_content st) = None \<and>
   (\<exists>st'. update float_ge_20 now (Some soup) st = (Inr (Some st'), st') \<and> last_updated st' = now) \<and>
   update float_ge_20 now None st = (Inr None, st) \<and>
   (\<exists>r. fst (update float_ge_20 now html_content st) = Inr r)"
proof -
  have a: "\<exists>st'. update float_ge_20 now (Some soup) st = (Inr (Some st'), st') \<and> last_updated st' = now"
    by (simp add: update_data Let_def validate_frame)
  have b: "update float_ge_20 now None st = (Inr None, st)"
    by (simp add: update_data)
  have c: "\<exists>r. fst (update float_ge_20 now html_content st) = Inr r"
    by (cases html_content) (simp_all add: update_data Let_def)
  show ?thesis
    by (intro conjI a b c) (simp_all add: parse_match_info_returns parse_teams_and_scores_returns
        parse_batting_stats_returns parse_bowling_stats_returns parse_commentary_returns
        parse_html_block_returns parse_html_returns)
qed

text \<open>
  Claim C2 as stated fails: a call of \<open>update\<close> with no fetched document returns, but it
  returns no value, where the claim has every call return the match data.
\<close>

theorem update_without_document_counterexample:
  "fst (update sample_float ''2025-04-01 20:00:00'' None earlier_state) = Inr None \<and>
   fst (update sample_float ''2025-04-01 20:00:00'' None earlier_state) \<noteq>
     Inr (Some (snd (update sample_float ''2025-04-01 20:00:00'' None earlier_state))) \<and>
   snd (update sample_float ''2025-04-01 20:00:00'' None earlier_state) = earlier_state"
  by (simp add: update_def)

section \<open>The commentary list\<close>

lemma commentary_update:
  "commentary (snd (update float_ge_20 now (Some soup) st)) =
     (if find_commentary_items soup = [] then commentary st
      else List.map_filter commentary_entry_of (take 20 (find_commentary_items soup)))"
  by (simp add: update_data Let_def validate_frame commentary_parse_html)

text \<open>
  Claim C5, as amended. After an update on a fetched document the commentary list is,
  when the document has commentary items, the list of the entries of its first 20 items,
  computed from the document alone; when the document has none, it is the list of before,
  unchanged. So it has at most 20 entries when the document has items or the list had at
  most 20 entries before, and it never grows by accumulation.
\<close>

theorem commentary_window:
  "commentary (snd (update float_ge_20 now (Some soup) st)) =
     (if find_commentary_items soup = [] then commentary st
      else List.map_filter commentary_entry_of (take 20 (find_commentary_items soup))) \<and>
   (find_commentary_items soup \<noteq> [] \<or> length (commentary st) \<le> 20 \<longrightarrow>
      length (commentary (snd (update float_ge_20 now (Some soup) st))) \<le> 20)"
proof -
  have "length (List.map_filter commentary_entry_of (take 20 (find_commentary_items soup))) \<le> 20"
    using length_map_filter_le [of commentary_entry_of "take 20 (find_commentary_items soup)"] by simp
  then show ?thesis unfolding commentary_update by auto
qed

theorem commentary_window_witness:
  "commentary (snd (update (\<lambda>s. None) ''2025-04-01 20:00:00''
      (Some (empty_document\<lparr>section_commentary_items :=
          [\<lparr>item_time = None,
            item_ball = Some \<lparr>ball_overs = Some ''4.2'', ball_result = Some ''4''\<rparr>,
            item_txt = Some '' Bumrah to Gill, FOUR ''\<rparr>]\<rparr>))
      ((init_match_data None None)\<lparr>commentary := [General ''19:30'' ''Toss'']\<rparr>)))
     = [Ball ''4.2'' ''4'' ''Bumrah to Gill, FOUR''] \<and>
   length (commentary (snd (update (\<lambda>s. None) ''2025-04-01 20:00:00''
      (Some (empty_document\<lparr>section_commentary_items :=
          [\<lparr>item_time = None,
            item_ball = Some \<lparr>ball_overs = Some ''4.2'', ball_result = Some ''4''\<rparr>,
            item_txt = Some '' Bumrah to Gill, FOUR ''\<rparr>]\<rparr>))
      ((init_match_data None None)\<lparr>commentary := [General ''19:30'' ''Toss'']\<rparr>)))) \<le> 20"
  using commentary_window [of "\<lambda>s. None" "''2025-04-01 20:00:00''"
      "empty_document\<lparr>section_commentary_items :=
          [\<lparr>item_time = None,
            item_ball = Some \<lparr>ball_overs = Some ''4.2'', ball_result = Some ''4''\<rparr>,
            item_txt = Some '' Bumrah to Gill, FOUR ''\<rparr>]\<rparr>"
      "(init_match_data None None)\<lparr>commentary := [General ''19:30'' ''Toss'']\<rparr>"]
  by (simp add: find_commentary_items_def empty_document_def commentary_entry_of_def
      List.map_filter_simps strip_def is_space_def)

text \<open>
  Claim C5 as stated fails: an update on a document without commentary items keeps the
  entries of before, which are not computed from that document.
\<close>

theorem commentary_kept_counterexample:
  "find_commentary_items empty_document = [] \<and>
   commentary (snd (update (\<lambda>s. None) ''2025-04-01 20:00:00'' (Some empty_document)
      ((init_match_data None None)\<lparr>commentary := [General ''19:30'' ''Toss'']\<rparr>)))
     = [General ''19:30'' ''Toss'']"
proof -
  have e: "find_commentary_items empty_document = []"
    by (simp add: find_commentary_items_def empty_document_def)
  show ?thesis unfolding commentary_update e by simp
qed

section \<open>One entry for each name\<close>












section \<open>A completed match\<close>

lemma current_bowling_team_completed:
  assumes "\<not> contains ''yet to bat'' (lower (team_get t_score [] (teams st) Team1))"
    and "\<not> contains ''yet to bat'' (lower (team_get t_score [] (teams st) Team2))"
    and "match_completed st"
  shows "current_bowling_team st = None"
  using assms by (simp add: current_bowling_team_def)

lemma has_bowlers_name:
  assumes "bs k = Some l" "x \<in> set (map bowl_name l)"
  shows "has_bowlers bs Team1 \<or> has_bowlers bs Team2"
proof -
  have "has_bowlers bs k" using assms by (auto simp: has_bowlers_def)
  then show ?thesis by (cases k) auto
qed

lemma initial_lists_defined: "\<forall>k. [Team1 \<mapsto> [], Team2 \<mapsto> []] k \<noteq> (None :: bowler_data list option)"
proof
  fix k :: team_key
  show "[Team1 \<mapsto> [], Team2 \<mapsto> []] k \<noteq> (None :: bowler_data list option)" by (cases k) auto
qed

text \<open>
  Claim C7. When neither team's score is a "yet to bat" text and the match is completed
  (the status text has a win, tie or over marker, or a team has the won flag), no team is
  the current bowling team, so no table is skipped for its team, and the bowler of every
  parsed row of every table taken as a bowling table is in a bowling list after the
  extraction.
\<close>

theorem completed_match_unrestricted:
  assumes "\<not> contains ''yet to bat'' (lower (team_get t_score [] (teams st) Team1))"
    and "\<not> contains ''yet to bat'' (lower (team_get t_score [] (teams st) Team2))"
    and "match_completed st"
  shows "current_bowling_team st = None \<and>
         (\<forall>bowling_team. \<not> skip_table (current_bowling_team st) bowling_team) \<and>
         (\<forall>table \<in> set (find_bowling_tables soup). \<forall>header_row row b.
             identify_table table = Some header_row \<and>
             row \<in> set (bowler_rows_of header_row table) \<and>
             parse_bowler_row row = Some b \<longrightarrow>
             (\<exists>k l. bowling_stats (parse_bowling_stats soup st) k = Some l \<and>
                    bowl_name b \<in> set (map bowl_name l)))"
proof -
  have cbt: "current_bowling_team st = None"
    by (rule current_bowling_team_completed [OF assms])
  define bs1 where "bs1 = bowling_loop None (find_bowling_tables soup) 0 [Team1 \<mapsto> [], Team2 \<mapsto> []]"
  have rows: "\<exists>k l. bowling_stats (parse_bowling_stats soup st) k = Some l \<and>
                    bowl_name b \<in> set (map bowl_name l)"
    if h: "table \<in> set (find_bowling_tables soup)" "identify_table table = Some header_row"
      "row \<in> set (bowler_rows_of header_row table)" "parse_bowler_row row = Some b"
    for table header_row row b
  proof -
    obtain k l where kl: "bs1 k = Some l" "bowl_name b \<in> set (map bowl_name l)"
      using bowling_loop_processed [OF initial_lists_defined h] unfolding bs1_def by blast
    have "has_bowlers bs1 Team1 \<or> has_bowlers bs1 Team2" using has_bowlers_name [of bs1 k l "bowl_name b"] kl by simp
    then have "bowling_stats (parse_bowling_stats soup st) = bs1"
      by (auto simp: parse_bowling_stats_def Let_def cbt bs1_def [symmetric])
    then show ?thesis using kl by auto
  qed
  show ?thesis using cbt rows by (auto simp: skip_table_def)
qed

theorem completed_match_unrestricted_witness:
  "current_bowling_team completed_state = None \<and>
   (\<exists>k l. bowling_stats (parse_bowling_stats
             (empty_document\<lparr>tab_bowling_tables := [sample_bowling_table]\<rparr>) completed_state) k = Some l \<and>
          ''Bumrah'' \<in> set (map bowl_name l))"
proof -
  have h1: "\<not> contains ''yet to bat'' (lower (team_get t_score [] (teams completed_state) Team1))"
    by (simp add: completed_state_def sample_team_def team_get_def lower_def lower_char_def is_upper_def)
  have h2: "\<not> contains ''yet to bat'' (lower (team_get t_score [] (teams completed_state) Team2))"
    by (simp add: completed_state_def sample_team_def team_get_def lower_def lower_char_def is_upper_def)
  have h3: "match_completed completed_state"
    by (simp add: match_completed_def completed_state_def init_match_data_def lower_def lower_char_def
        is_upper_def)
  have tab: "sample_bowling_table \<in> set (find_bowling_tables (empty_document\<lparr>tab_bowling_tables := [sample_bowling_table]\<rparr>))"
    by (simp add: find_bowling_tables_def)
  have idt: "identify_table sample_bowling_table = Some sample_header"
    by (simp add: identify_table_def sample_bowling_table_def sample_header_def header_matches_def
        upper_def upper_char_def is_lower_def)
  have row: "sample_bowler_row \<in> set (bowler_rows_of sample_header sample_bowling_table)"
    by (simp add: bowler_rows_of_def sample_bowling_table_def)
  have prs: "bowl_name (the (parse_bowler_row sample_bowler_row)) = ''Bumrah'' \<and>
             parse_bowler_row sample_bowler_row \<noteq> None"
    by (simp add: parse_bowler_row_def sample_bowler_row_def clean_name_def close_paren_def
        is_alpha_def is_upper_def is_lower_def lower_def lower_char_def)
  then obtain b where b: "parse_bowler_row sample_bowler_row = Some b" "bowl_name b = ''Bumrah''"
    by auto
  from completed_match_unrestricted [OF h1 h2 h3, of "empty_document\<lparr>tab_bowling_tables := [sample_bowling_table]\<rparr>"]
    tab idt row b
  show ?thesis by metis
qed

section \<open>A team that is yet to bat\<close>

lemma step_yet_to_bat:
  assumes se: "score_elem section = Some se"
    and ytb: "contains ''yet to bat'' (lower (strip (elem_text se)))"
    and slot: "name_elem section \<noteq> None \<or> tm k \<noteq> None"
  shows "\<exists>td tm'. team_section_step fl k section tm = (None, tm') \<and> tm' k = Some td \<and>
           t_score td = Some ''Yet to bat'' \<and> t_runs td = Some ''Yet to bat'' \<and>
           t_wickets td = Some ''0'' \<and> t_overs td = Some [] \<and>
           t_innings_complete td =
             (case name_elem section of
                Some ne \<Rightarrow> None
              | None \<Rightarrow> (case tm k of None \<Rightarrow> None | Some td0 \<Rightarrow> t_innings_complete td0))"
proof (cases "name_elem section")
  case None
  then obtain td0 where "tm k = Some td0" using slot by auto
  then show ?thesis using None se ytb by (simp add: team_section_step_def)
next
  case (Some ne)
  then show ?thesis using se ytb by (simp add: team_section_step_def new_team_def)
qed

lemma batting_loop_yet_to_bat:
  assumes "contains ''yet to bat'' (lower (team_get t_score [] tm k))" "bs k = None"
  shows "fst (snd (batting_loop tm f s tables n bs mi)) k = None"
  using assms(2)
proof (induction tables arbitrary: n bs mi)
  case Nil
  then show ?case by simp
next
  case (Cons table tables)
  define team where "team = (if n = 0 then f else s)"
  show ?case
  proof (cases "\<not> is_batting_table table \<or> contains ''yet to bat'' (lower (team_get t_score [] tm team))")
    case True
    then show ?thesis using Cons by (auto simp: team_def Let_def)
  next
    case False
    then have ne: "team \<noteq> k" using assms(1) by auto
    show ?thesis
    proof (cases "cross_check (map row_tag (bat_rows table)) (team_get t_wickets ''0'' tm team)
                    (List.map_filter parse_batsman_row (bat_rows table))")
      case (Inl e)
      then show ?thesis using False ne Cons.prems by (simp add: team_def [symmetric] Let_def)
    next
      case (Inr batsmen)
      have "(bs(team \<mapsto> [], team \<mapsto> map entry_of batsmen)) k = None"
        using ne Cons.prems by simp
      then have "\<And>n mi. fst (snd (batting_loop tm f s tables n
                    (bs(team \<mapsto> [], team \<mapsto> map entry_of batsmen)) mi)) k = None"
        by (rule Cons.IH)
      then show ?thesis
        using False Inr by (simp add: team_def [symmetric] Let_def)
    qed
  qed
qed

lemma batting_yet_to_bat:
  assumes "contains ''yet to bat'' (lower (team_get t_score [] (teams st) k))"
  shows "batting_stats (parse_batting_stats soup st) k = None"
proof -
  obtain f s where o: "batting_order st = (f, s)" by (cases "batting_order st")
  obtain err bs' mi' where r:
    "batting_loop (teams st) f s (find_batting_tables soup) 0 Map.empty (match_info st) = (err, bs', mi')"
    by (cases "batting_loop (teams st) f s (find_batting_tables soup) 0 Map.empty (match_info st)")
  have "fst (snd (batting_loop (teams st) f s (find_batting_tables soup) 0 Map.empty (match_info st))) k = None"
    by (rule batting_loop_yet_to_bat [OF assms]) simp
  then have "bs' k = None" by (simp add: r)
  then show ?thesis
    by (simp add: parse_batting_stats_data parse_batting_stats_body_def o r)
qed

lemma infer_for_other:
  "k \<noteq> bowling_team \<Longrightarrow> bowling_stats (infer_for batting_team bowling_team st) k = bowling_stats st k"
  by (simp add: infer_for_def Let_def)

lemma infer_for_yet_to_bat:
  "contains ''yet to bat'' (lower (team_get t_score [] (teams st) batting_team)) \<Longrightarrow>
     infer_for batting_team bowling_team st = st"
  by (simp add: infer_for_def Let_def)

lemma infer_missing_yet_to_bat:
  assumes "contains ''yet to bat'' (lower (team_get t_score [] (teams st) team))" "k \<noteq> team"
  shows "bowling_stats (infer_missing_bowling_stats st) k = bowling_stats st k"
proof (cases team)
  case Team1
  then have k: "k = Team2" using assms(2) by (cases k) auto
  have "infer_for Team1 Team2 st = st" using assms(1) Team1 by (simp add: infer_for_yet_to_bat)
  then show ?thesis using k by (simp add: infer_missing_bowling_stats_def infer_for_other)
next
  case Team2
  then have k: "k = Team1" using assms(2) by (cases k) auto
  have "contains ''yet to bat'' (lower (team_get t_score [] (teams (infer_for Team1 Team2 st)) Team2))"
    using assms(1) Team2 by (simp add: infer_for_frame)
  then have "infer_for Team2 Team1 (infer_for Team1 Team2 st) = infer_for Team1 Team2 st"
    by (rule infer_for_yet_to_bat)
  then show ?thesis using k by (simp add: infer_missing_bowling_stats_def infer_for_other)
qed

lemma bowling_yet_to_bat:
  assumes ytb: "contains ''yet to bat'' (lower (team_get t_score [] (teams st) team))"
    and cbt: "current_bowling_team st = Some team"
    and k: "k \<noteq> team"
  shows "bowling_stats (parse_bowling_stats soup st) k = Some []"
proof -
  define bs1 where "bs1 = bowling_loop (Some team) (find_bowling_tables soup) 0 [Team1 \<mapsto> [], Team2 \<mapsto> []]"
  have "bs1 k = [Team1 \<mapsto> [], Team2 \<mapsto> []] k"
    unfolding bs1_def by (rule bowling_loop_other [OF k])
  then have b: "bs1 k = Some []" by (cases k) auto
  have "bowling_stats (infer_missing_bowling_stats (st\<lparr>bowling_stats := bs1\<rparr>)) k =
          bowling_stats (st\<lparr>bowling_stats := bs1\<rparr>) k"
    by (rule infer_missing_yet_to_bat [OF _ k]) (simp add: ytb)
  then show ?thesis using b
    by (simp add: parse_bowling_stats_def Let_def cbt bs1_def [symmetric])
qed

lemma current_bowling_team_yet_to_bat:
  assumes "contains ''yet to bat'' (lower (team_get t_score [] (teams st) team))"
    and "team = Team2 \<or> \<not> contains ''yet to bat'' (lower (team_get t_score [] (teams st) Team2))"
  shows "current_bowling_team st = Some team"
  using assms by (cases team) (auto simp: current_bowling_team_def)

text \<open>
  Claim C4, as amended. A round of the team loop on a score text with "yet to bat", in
  any case of letters, for a team whose entry exists, records the score and the runs
  "Yet to bat", the wickets "0" and empty overs, and writes no innings-completion flag.
  The batting extractor then creates no list for that team. In the bowling extractor the
  team is not excluded: it is the current bowling team (team 2 when it is yet to bat,
  team 1 when it alone is), the tables of the other team are skipped, and the bowling
  list of the other team stays empty.
\<close>

theorem yet_to_bat_team:
  "(score_elem section = Some se \<and> contains ''yet to bat'' (lower (strip (elem_text se))) \<and>
    (name_elem section \<noteq> None \<or> tm team_key \<noteq> None) \<longrightarrow>
      (\<exists>td tm'. team_section_step float_ge_20 team_key section tm = (None, tm') \<and>
         tm' team_key = Some td \<and>
         t_score td = Some ''Yet to bat'' \<and> t_runs td = Some ''Yet to bat'' \<and>
         t_wickets td = Some ''0'' \<and> t_overs td = Some [] \<and>
         t_innings_complete td =
           (case name_elem section of
              Some ne \<Rightarrow> None
            | None \<Rightarrow> (case tm team_key of None \<Rightarrow> None | Some td0 \<Rightarrow> t_innings_complete td0)))) \<and>
   (contains ''yet to bat'' (lower (team_get t_score [] (teams st) team_key)) \<longrightarrow>
      batting_stats (parse_batting_stats soup st) team_key = None \<and>
      (team_key = Team2 \<or> \<not> contains ''yet to bat'' (lower (team_get t_score [] (teams st) Team2)) \<longrightarrow>
         current_bowling_team st = Some team_key \<and>
         (\<forall>k. k \<noteq> team_key \<longrightarrow> bowling_stats (parse_bowling_stats soup st) k = Some [])))"
  using step_yet_to_bat [of "section" se tm team_key float_ge_20]
    batting_yet_to_bat [of st team_key soup]
    current_bowling_team_yet_to_bat [of st team_key]
    bowling_yet_to_bat [of st team_key _ soup]
  by blast

lemma first_innings_teams:
  "teams (parse_teams_and_scores sample_float first_innings_document
            (parse_match_info first_innings_document (init_match_data None None))) =
   teams first_innings_state"
  by (simp add: parse_teams_and_scores_data parse_teams_and_scores_body_def first_innings_document_def
      empty_document_def match_info_frame batting_section_def yet_to_bat_section_def
      team_section_step_def split_score_def innings_check_def won_checks_def has_won_class_def
      new_team_def first_word_def lower_def lower_char_def is_upper_def strip_def is_space_def
      sample_float_def first_innings_state_def sample_team_def init_match_data_def)

lemma first_innings_bowling:
  assumes "teams s = teams first_innings_state"
  shows "bowling_stats (parse_bowling_stats first_innings_document s) Team2 =
           Some [\<lparr>bowl_name = ''Bumrah'', bowl_overs = ''4'', bowl_maidens = ''0'', bowl_runs = ''24'',
                  bowl_wickets = ''2'', bowl_economy = ''6.00'', bowl_inferred = False\<rparr>]"
proof -
  have cbt: "current_bowling_team s = Some Team2"
    by (simp add: current_bowling_team_def assms first_innings_state_def team_get_def lower_def
        lower_char_def)
  have tabs: "find_bowling_tables first_innings_document = [sample_bowling_table]"
    by (simp add: find_bowling_tables_def first_innings_document_def)
  have idt: "identify_table sample_bowling_table = Some sample_header"
    by (simp add: identify_table_def sample_bowling_table_def sample_header_def header_matches_def
        upper_def upper_char_def)
  have asg: "assign_team sample_bowling_table 0 = Team2"
    by (simp add: assign_team_def tab_parent_def sample_bowling_table_def is_tab_def)
  have rows: "bowler_rows_of sample_header sample_bowling_table = [sample_bowler_row]"
    by (simp add: bowler_rows_of_def sample_bowling_table_def)
  have prs: "parse_bowler_row sample_bowler_row =
               Some \<lparr>bowl_name = ''Bumrah'', bowl_overs = ''4'', bowl_maidens = ''0'', bowl_runs = ''24'',
                  bowl_wickets = ''2'', bowl_economy = ''6.00'', bowl_inferred = False\<rparr>"
    by (simp add: parse_bowler_row_def sample_bowler_row_def clean_name_def close_paren_def
        is_alpha_def is_upper_def is_lower_def lower_def lower_char_def)
  have loop: "bowling_loop (Some Team2) [sample_bowling_table] 0 [Team1 \<mapsto> [], Team2 \<mapsto> []] Team2 =
           Some [\<lparr>bowl_name = ''Bumrah'', bowl_overs = ''4'', bowl_maidens = ''0'', bowl_runs = ''24'',
                  bowl_wickets = ''2'', bowl_economy = ''6.00'', bowl_inferred = False\<rparr>]"
    by (simp add: idt asg rows skip_table_def bowler_row_step_def prs add_bowler_if_not_exists_def
        upsert_def existing_bowlers_def)
  then have "has_bowlers (bowling_loop (Some Team2) [sample_bowling_table] 0 [Team1 \<mapsto> [], Team2 \<mapsto> []]) Team2"
    by (simp add: has_bowlers_def)
  then show ?thesis using loop
    by (simp add: parse_bowling_stats_def Let_def cbt tabs)
qed

text \<open>
  Claim C4 as stated fails: in the first innings team 2 is yet to bat, and the bowling
  extraction fills the bowling list of team 2 from the table of the first tab.
\<close>

theorem yet_to_bat_team_bowls_counterexample:
  "map_option t_score (teams (parse_html sample_float (Some first_innings_document)
       (init_match_data None None)) Team2) = Some (Some ''Yet to bat'') \<and>
   bowling_stats (parse_html sample_float (Some first_innings_document)
       (init_match_data None None)) Team2 =
     Some [\<lparr>bowl_name = ''Bumrah'', bowl_overs = ''4'', bowl_maidens = ''0'', bowl_runs = ''24'',
            bowl_wickets = ''2'', bowl_economy = ''6.00'', bowl_inferred = False\<rparr>]"
proof -
  define s2 where "s2 = parse_teams_and_scores sample_float first_innings_document
            (parse_match_info first_innings_document (init_match_data None None))"
  have t: "teams (parse_batting_stats first_innings_document s2) = teams first_innings_state"
    by (simp add: batting_frame s2_def first_innings_teams)
  have "teams (parse_html sample_float (Some first_innings_document) (init_match_data None None)) =
          teams first_innings_state"
    using t by (simp add: parse_html_data commentary_frame bowling_frame s2_def)
  moreover have "bowling_stats (parse_html sample_float (Some first_innings_document) (init_match_data None None)) Team2 =
     bowling_stats (parse_bowling_stats first_innings_document (parse_batting_stats first_innings_document s2)) Team2"
    by (simp add: parse_html_data commentary_frame s2_def)
  ultimately show ?thesis
    using first_innings_bowling [OF t] by (simp add: first_innings_state_def)
qed

theorem yet_to_bat_team_witness:
  "(\<exists>td tm'. team_section_step sample_float Team2 yet_to_bat_section Map.empty = (None, tm') \<and>
       tm' Team2 = Some td \<and> t_score td = Some ''Yet to bat'' \<and> t_runs td = Some ''Yet to bat'' \<and>
       t_wickets td = Some ''0'' \<and> t_overs td = Some [] \<and> t_innings_complete td = None) \<and>
   batting_stats (parse_batting_stats first_innings_document first_innings_state) Team2 = None \<and>
   current_bowling_team first_innings_state = Some Team2 \<and>
   bowling_stats (parse_bowling_stats first_innings_document first_innings_state) Team1 = Some []"
proof -
  have h1: "score_elem yet_to_bat_section = Some \<lparr>elem_text = ''Yet to Bat'', elem_classes = [''team_score'']\<rparr>"
    by (simp add: yet_to_bat_section_def)
  have h2: "contains ''yet to bat'' (lower (strip (elem_text \<lparr>elem_text = ''Yet to Bat'', elem_classes = [''team_score'']\<rparr>)))"
    by (simp add: lower_def lower_char_def strip_def is_space_def)
  have h3: "name_elem yet_to_bat_section \<noteq> None"
    by (simp add: yet_to_bat_section_def)
  have h4: "contains ''yet to bat'' (lower (team_get t_score [] (teams first_innings_state) Team2))"
    by (simp add: first_innings_state_def team_get_def lower_def lower_char_def)
  have h5: "name_elem yet_to_bat_section = Some \<lparr>elem_text = ''MI'', elem_classes = []\<rparr>"
    by (simp add: yet_to_bat_section_def)
  from yet_to_bat_team [of yet_to_bat_section "\<lparr>elem_text = ''Yet to Bat'', elem_classes = [''team_score'']\<rparr>"
      Map.empty Team2 sample_float first_innings_state first_innings_document] h1 h2 h3 h4
  show ?thesis by (auto simp: h5)
qed

section \<open>Failures inside an extractor\<close>

lemma parse_match_info_stats:
  "parse_match_info soup (st\<lparr>batting_stats := bm\<rparr>) = (parse_match_info soup st)\<lparr>batting_stats := bm\<rparr>"
  "parse_match_info soup (st\<lparr>bowling_stats := wm\<rparr>) = (parse_match_info soup st)\<lparr>bowling_stats := wm\<rparr>"
  "parse_match_info soup (st\<lparr>last_updated := t\<rparr>) = (parse_match_info soup st)\<lparr>last_updated := t\<rparr>"
  by (simp_all add: parse_match_info_def Let_def)

lemma parse_teams_stats:
  "parse_teams_and_scores fl soup (st\<lparr>batting_stats := bm\<rparr>) =
     (parse_teams_and_scores fl soup st)\<lparr>batting_stats := bm\<rparr>"
  "parse_teams_and_scores fl soup (st\<lparr>bowling_stats := wm\<rparr>) =
     (parse_teams_and_scores fl soup st)\<lparr>bowling_stats := wm\<rparr>"
  "parse_teams_and_scores fl soup (st\<lparr>last_updated := t\<rparr>) =
     (parse_teams_and_scores fl soup st)\<lparr>last_updated := t\<rparr>"
  by (simp_all add: parse_teams_and_scores_data parse_teams_and_scores_body_def split: prod.splits)

lemma parse_batting_body_stats:
  "parse_batting_stats_body soup (st\<lparr>batting_stats := bm\<rparr>) =
     (fst (parse_batting_stats_body soup st), snd (parse_batting_stats_body soup st))"
  "parse_batting_stats_body soup (st\<lparr>bowling_stats := wm\<rparr>) =
     (fst (parse_batting_stats_body soup st), (snd (parse_batting_stats_body soup st))\<lparr>bowling_stats := wm\<rparr>)"
  "parse_batting_stats_body soup (st\<lparr>last_updated := t\<rparr>) =
     (fst (parse_batting_stats_body soup st), (snd (parse_batting_stats_body soup st))\<lparr>last_updated := t\<rparr>)"
  by (simp_all add: parse_batting_stats_body_def batting_order_def split: prod.splits)

lemma parse_batting_stats_stats:
  "parse_batting_stats soup (st\<lparr>batting_stats := bm\<rparr>) = parse_batting_stats soup st"
  "parse_batting_stats soup (st\<lparr>bowling_stats := wm\<rparr>) = (parse_batting_stats soup st)\<lparr>bowling_stats := wm\<rparr>"
  "parse_batting_stats soup (st\<lparr>last_updated := t\<rparr>) = (parse_batting_stats soup st)\<lparr>last_updated := t\<rparr>"
  by (simp_all add: parse_batting_stats_data parse_batting_body_stats)

lemma current_bowling_team_cong:
  assumes "teams a = teams b" "status (match_info a) = status (match_info b)"
  shows "current_bowling_team a = current_bowling_team b"
  using assms by (simp add: current_bowling_team_def match_completed_def)

lemma infer_for_bowling_cong:
  assumes "teams a = teams b" "batting_stats a = batting_stats b" "bowling_stats a = bowling_stats b"
  shows "bowling_stats (infer_for x y a) = bowling_stats (infer_for x y b)"
  using assms by (simp add: infer_for_def Let_def)

lemma infer_missing_bowling_cong:
  assumes "teams a = teams b" "batting_stats a = batting_stats b" "bowling_stats a = bowling_stats b"
  shows "bowling_stats (infer_missing_bowling_stats a) = bowling_stats (infer_missing_bowling_stats b)"
  unfolding infer_missing_bowling_stats_def
  by (intro infer_for_bowling_cong) (simp_all add: infer_for_frame assms)

lemma parse_bowling_stats_cong:
  assumes "teams a = teams b" "status (match_info a) = status (match_info b)"
    and "batting_stats a = batting_stats b"
  shows "bowling_stats (parse_bowling_stats soup a) = bowling_stats (parse_bowling_stats soup b)"
proof -
  define bs1 where "bs1 = bowling_loop (current_bowling_team a) (find_bowling_tables soup) 0
                            [Team1 \<mapsto> [], Team2 \<mapsto> []]"
  have c: "current_bowling_team b = current_bowling_team a"
    using current_bowling_team_cong [OF assms(1,2)] by simp
  have i: "bowling_stats (infer_missing_bowling_stats (a\<lparr>bowling_stats := bs1\<rparr>)) =
           bowling_stats (infer_missing_bowling_stats (b\<lparr>bowling_stats := bs1\<rparr>))"
    by (rule infer_missing_bowling_cong) (simp_all add: assms)
  show ?thesis
    using i by (simp add: parse_bowling_stats_def Let_def c bs1_def [symmetric])
qed

lemma parse_bowling_stats_frame_eq:
  "parse_bowling_stats soup st = st\<lparr>bowling_stats := bowling_stats (parse_bowling_stats soup st)\<rparr>"
  by (rule match_state.equality) (simp_all add: bowling_frame parse_bowling_stats_def Let_def
      infer_missing_bowling_stats_def infer_for_def)

lemma parse_bowling_stats_stats:
  "parse_bowling_stats soup (st\<lparr>bowling_stats := wm\<rparr>) = parse_bowling_stats soup st"
  "parse_bowling_stats soup (st\<lparr>last_updated := t\<rparr>) = (parse_bowling_stats soup st)\<lparr>last_updated := t\<rparr>"
proof -
  have "bowling_stats (parse_bowling_stats soup (st\<lparr>bowling_stats := wm\<rparr>)) =
          bowling_stats (parse_bowling_stats soup st)"
    by (rule parse_bowling_stats_cong) simp_all
  then show "parse_bowling_stats soup (st\<lparr>bowling_stats := wm\<rparr>) = parse_bowling_stats soup st"
    using parse_bowling_stats_frame_eq [of soup "st\<lparr>bowling_stats := wm\<rparr>"]
      parse_bowling_stats_frame_eq [of soup st] by simp
  have "bowling_stats (parse_bowling_stats soup (st\<lparr>last_updated := t\<rparr>)) =
          bowling_stats (parse_bowling_stats soup st)"
    by (rule parse_bowling_stats_cong) simp_all
  then show "parse_bowling_stats soup (st\<lparr>last_updated := t\<rparr>) = (parse_bowling_stats soup st)\<lparr>last_updated := t\<rparr>"
    by (intro match_state.equality) (simp_all add: bowling_frame)
qed

lemma parse_commentary_stamp:
  "parse_commentary soup (st\<lparr>last_updated := t\<rparr>) = (parse_commentary soup st)\<lparr>last_updated := t\<rparr>"
  by (simp add: parse_commentary_def Let_def)

lemma parse_html_stats:
  "parse_html fl (Some soup) (st\<lparr>batting_stats := bm, bowling_stats := wm\<rparr>) = parse_html fl (Some soup) st"
  by (simp add: parse_html_data parse_match_info_stats parse_teams_stats parse_batting_stats_stats
      parse_bowling_stats_stats)

lemma parse_html_stamp:
  "parse_html fl (Some soup) (st\<lparr>last_updated := t\<rparr>) = (parse_html fl (Some soup) st)\<lparr>last_updated := t\<rparr>"
  by (simp add: parse_html_data parse_match_info_stats parse_teams_stats parse_batting_stats_stats
      parse_bowling_stats_stats parse_commentary_stamp)

text \<open>
  The batting extractor writes one key of the match information, \<open>innings_status\<close>, and
  leaves the others alone.
\<close>

lemma batting_loop_match_info:
  "batting_loop tm f s tables n bs mi = (err, bs', mi') \<Longrightarrow>
     mi' = mi\<lparr>innings_status := innings_status mi'\<rparr>"
proof (induction tables arbitrary: n bs mi)
  case Nil
  then show ?case by simp
next
  case (Cons table rest)
  show ?case
  proof (cases "is_batting_table table")
    case False
    then show ?thesis using Cons.prems Cons.IH [of n bs mi] by simp
  next
    case True
    define team_key where "team_key = (if n = 0 then f else s)"
    show ?thesis
    proof (cases "contains ''yet to bat'' (lower (team_get t_score [] tm team_key))")
      case y: True
      then show ?thesis using True Cons.prems Cons.IH [of n bs mi] by (simp add: team_key_def Let_def)
    next
      case y: False
      show ?thesis
      proof (cases "cross_check (map row_tag (bat_rows table)) (team_get t_wickets ''0'' tm team_key)
                         (List.map_filter parse_batsman_row (bat_rows table))")
        case (Inl e)
        then show ?thesis using True y Cons.prems by (simp add: team_key_def Let_def)
      next
        case (Inr batsmen)
        define mi1 where "mi1 = (if team_get t_overs [] tm team_key \<noteq> [] \<and> contains ''20'' (team_get t_overs [] tm team_key)
                                  then mi\<lparr>innings_status := Some (key_name team_key @ ''_complete'')\<rparr>
                                  else mi)"
        have step: "batting_loop tm f s (table # rest) n bs mi =
                      batting_loop tm f s rest (if batsmen \<noteq> [] then n + 1 else n)
                        ((bs(team_key \<mapsto> []))(team_key \<mapsto> map entry_of batsmen)) mi1"
          using True y Inr by (simp add: team_key_def Let_def mi1_def)
        have "mi' = mi1\<lparr>innings_status := innings_status mi'\<rparr>"
          using Cons.prems unfolding step by (rule Cons.IH)
        then show ?thesis by (simp add: mi1_def split: if_splits)
      qed
    qed
  qed
qed

lemma batting_match_info:
  "match_info (parse_batting_stats soup st) =
     (match_info st)\<lparr>innings_status := innings_status (match_info (parse_batting_stats soup st))\<rparr>"
proof -
  obtain f s where o: "batting_order st = (f, s)" by (cases "batting_order st")
  obtain err bs mi where r: "batting_loop (teams st) f s (find_batting_tables soup) 0 Map.empty (match_info st) = (err, bs, mi)"
    by (cases "batting_loop (teams st) f s (find_batting_tables soup) 0 Map.empty (match_info st)")
  have "mi = (match_info st)\<lparr>innings_status := innings_status mi\<rparr>"
    using r by (rule batting_loop_match_info)
  then show ?thesis
    by (simp add: parse_batting_stats_data parse_batting_stats_body_def o r)
qed

text \<open>
  Claim C1, as amended. An exception inside the team and score extractor or the batting
  extractor is caught by that extractor: its call ends without an exception, and the
  cycle goes on, the extractors after it being called on the match data as the failed
  extractor has left them. After a failure of the team and score extractor the match
  information, the batting and bowling statistics, the commentary and the time stamp are
  as they were. After a failure of the batting extractor the teams, the bowling
  statistics, the commentary and the time stamp are as they were, and so is the match
  information but for its key \<open>innings_status\<close>, which the batting extractor writes as
  well and may have written for an earlier table. The extractor's own section holds what
  was written up to the exception, not its value of before the update. The batting and
  the bowling statistics are cleared on entry, so the match data after a cycle never
  depend on the statistics of before the update.
\<close>

theorem extractor_failure_contained:
  "(parse_teams_and_scores_body float_ge_20 soup s1 = (Some e, s2) \<longrightarrow>
      parse_teams_and_scores_call float_ge_20 soup s1 = (None, s2) \<and>
      match_info s2 = match_info s1 \<and> batting_stats s2 = batting_stats s1 \<and>
      bowling_stats s2 = bowling_stats s1 \<and> commentary s2 = commentary s1 \<and>
      last_updated s2 = last_updated s1) \<and>
   (s1 = parse_match_info soup st \<and>
    parse_teams_and_scores_body float_ge_20 soup s1 = (Some e, s2) \<longrightarrow>
      parse_html_block float_ge_20 soup st =
        (None, parse_commentary soup (parse_bowling_stats soup (parse_batting_stats soup s2))) \<and>
      parse_html_call float_ge_20 (Some soup) st =
        (None, parse_commentary soup (parse_bowling_stats soup (parse_batting_stats soup s2)))) \<and>
   (parse_batting_stats_body soup s2 = (Some e, s3) \<longrightarrow>
      parse_batting_stats_call soup s2 = (None, s3) \<and>
      teams s3 = teams s2 \<and> bowling_stats s3 = bowling_stats s2 \<and>
      commentary s3 = commentary s2 \<and> last_updated s3 = last_updated s2 \<and>
      match_info s3 = (match_info s2)\<lparr>innings_status := innings_status (match_info s3)\<rparr> \<and>
      batting_stats s3 = batting_stats (parse_batting_stats soup (s2\<lparr>batting_stats := bm\<rparr>))) \<and>
   (s2 = parse_teams_and_scores float_ge_20 soup (parse_match_info soup st) \<and>
    parse_batting_stats_body soup s2 = (Some e, s3) \<longrightarrow>
      parse_html_block float_ge_20 soup st =
        (None, parse_commentary soup (parse_bowling_stats soup s3)) \<and>
      parse_html_call float_ge_20 (Some soup) st =
        (None, parse_commentary soup (parse_bowling_stats soup s3))) \<and>
   parse_html float_ge_20 (Some soup) (st\<lparr>batting_stats := bm, bowling_stats := wm\<rparr>) =
     parse_html float_ge_20 (Some soup) st"
proof (intro conjI impI)
  assume a: "parse_teams_and_scores_body float_ge_20 soup s1 = (Some e, s2)"
  then have b: "parse_teams_and_scores float_ge_20 soup s1 = s2"
    by (simp add: parse_teams_and_scores_data)
  then show "parse_teams_and_scores_call float_ge_20 soup s1 = (None, s2)"
    by (simp add: parse_teams_and_scores_returns)
  show "match_info s2 = match_info s1" "batting_stats s2 = batting_stats s1"
    "bowling_stats s2 = bowling_stats s1" "commentary s2 = commentary s1"
    "last_updated s2 = last_updated s1"
    using b teams_frame [of float_ge_20 soup s1] by auto
next
  assume "s1 = parse_match_info soup st \<and>
    parse_teams_and_scores_body float_ge_20 soup s1 = (Some e, s2)"
  then have x: "s1 = parse_match_info soup st"
    and y: "parse_teams_and_scores_body float_ge_20 soup s1 = (Some e, s2)"
    by blast+
  have a1: "parse_teams_and_scores float_ge_20 soup (parse_match_info soup st) = s2"
    using x y by (simp add: parse_teams_and_scores_data)
  show "parse_html_block float_ge_20 soup st =
        (None, parse_commentary soup (parse_bowling_stats soup (parse_batting_stats soup s2)))"
    by (simp add: parse_html_block_returns a1)
  then show "parse_html_call float_ge_20 (Some soup) st =
        (None, parse_commentary soup (parse_bowling_stats soup (parse_batting_stats soup s2)))"
    by (simp add: parse_html_call_def try_except_returns)
next
  assume a: "parse_batting_stats_body soup s2 = (Some e, s3)"
  then have b: "parse_batting_stats soup s2 = s3"
    by (simp add: parse_batting_stats_data)
  then show "parse_batting_stats_call soup s2 = (None, s3)"
    by (simp add: parse_batting_stats_returns)
  show "teams s3 = teams s2" "bowling_stats s3 = bowling_stats s2" "commentary s3 = commentary s2"
    "last_updated s3 = last_updated s2"
    using b batting_frame [of soup s2] by auto
  show "match_info s3 = (match_info s2)\<lparr>innings_status := innings_status (match_info s3)\<rparr>"
    using b batting_match_info [of soup s2] by simp
  show "batting_stats s3 = batting_stats (parse_batting_stats soup (s2\<lparr>batting_stats := bm\<rparr>))"
    using b by (simp add: parse_batting_stats_stats)
next
  assume "s2 = parse_teams_and_scores float_ge_20 soup (parse_match_info soup st) \<and>
    parse_batting_stats_body soup s2 = (Some e, s3)"
  then have x: "s2 = parse_teams_and_scores float_ge_20 soup (parse_match_info soup st)"
    and y: "parse_batting_stats_body soup s2 = (Some e, s3)"
    by blast+
  have a1: "parse_teams_and_scores float_ge_20 soup (parse_match_info soup st) = s2"
    using x by simp
  have a2: "parse_batting_stats soup s2 = s3"
    by (simp add: parse_batting_stats_data y)
  show "parse_html_block float_ge_20 soup st =
        (None, parse_commentary soup (parse_bowling_stats soup s3))"
    by (simp add: parse_html_block_returns a1 a2)
  then show "parse_html_call float_ge_20 (Some soup) st =
        (None, parse_commentary soup (parse_bowling_stats soup s3))"
    by (simp add: parse_html_call_def try_except_returns)
next
  show "parse_html float_ge_20 (Some soup) (st\<lparr>batting_stats := bm, bowling_stats := wm\<rparr>) =
     parse_html float_ge_20 (Some soup) st"
    by (rule parse_html_stats)
qed

lemma failing_teams:
  "parse_teams_and_scores sample_float failing_document (parse_match_info failing_document earlier_state) =
     failing_teams_state"
proof -
  have m: "parse_match_info failing_document earlier_state = earlier_state"
    by (simp add: parse_match_info_def failing_document_def empty_document_def)
  have "teams_loop sample_float (zip [Team1, Team2] (team_sections failing_document)) (teams earlier_state) =
          (None, teams first_innings_state)"
    by (simp add: failing_document_def
      empty_document_def batting_section_def yet_to_bat_section_def
      team_section_step_def split_score_def innings_check_def won_checks_def has_won_class_def
      new_team_def first_word_def lower_def lower_char_def strip_def is_space_def
      sample_float_def first_innings_state_def sample_team_def init_match_data_def earlier_state_def)
  then show ?thesis
    by (simp add: m parse_teams_and_scores_data parse_teams_and_scores_body_def failing_teams_state_def)
qed

lemma failing_cross_check:
  "cross_check (map row_tag (bat_rows \<lparr>bat_header = Some ''BATTERS R B 4s 6s SR'',
            bat_rows = [sample_batting_row ''Gaikwad'' ''30'' None,
                        sample_batting_row ''Conway'' [] None]\<rparr>)) ''1''
     (List.map_filter parse_batsman_row (bat_rows \<lparr>bat_header = Some ''BATTERS R B 4s 6s SR'',
            bat_rows = [sample_batting_row ''Gaikwad'' ''30'' None,
                        sample_batting_row ''Conway'' [] None]\<rparr>)) = Inl ValueError"
  by (simp add: cross_check_def py_int_def strip_def is_space_def digits_ok.simps is_digit_def
      digits_value_def List.map_filter_simps parse_batsman_row_def sample_batting_row_def
      lower_def lower_char_def position_key_def runs_parse_def Let_def top_two_def)

lemma failing_batting:
  "parse_batting_stats_body failing_document failing_teams_state =
     (Some ValueError, failing_teams_state\<lparr>batting_stats := [Team1 \<mapsto> []]\<rparr>)"
proof -
  have o: "batting_order failing_teams_state = (Team1, Team2)"
    by (simp add: batting_order_def Let_def lower_def failing_teams_state_def earlier_state_def
        init_match_data_def)
  have t: "find_batting_tables failing_document =
             [\<lparr>bat_header = Some ''BATTERS R B 4s 6s SR'',
            bat_rows = [sample_batting_row ''Gaikwad'' ''30'' None,
                        sample_batting_row ''Conway'' [] None]\<rparr>]"
    by (simp add: find_batting_tables_def failing_document_def empty_document_def)
  have s: "team_get t_score [] (teams failing_teams_state) Team1 = ''45/1''"
      "team_get t_wickets ''0'' (teams failing_teams_state) Team1 = ''1''"
    by (simp_all add: team_get_def failing_teams_state_def first_innings_state_def sample_team_def)
  have h: "is_batting_table \<lparr>bat_header = Some ''BATTERS R B 4s 6s SR'',
            bat_rows = [sample_batting_row ''Gaikwad'' ''30'' None,
                        sample_batting_row ''Conway'' [] None]\<rparr>"
    by (simp add: is_batting_table_def)
  have n: "\<not> contains ''yet to bat'' (lower ''45/1'')"
    by (simp add: lower_def lower_char_def)
  have "batting_loop (teams failing_teams_state) Team1 Team2 (find_batting_tables failing_document) 0 Map.empty
          (match_info failing_teams_state) = (Some ValueError, [Team1 \<mapsto> []], match_info failing_teams_state)"
    unfolding t by (simp only: batting_loop.simps h s n failing_cross_check Let_def if_True if_False
        not_True_eq_False sum.case simp_thms)
  then show ?thesis
    by (simp add: parse_batting_stats_body_def o)
qed

text \<open>
  Claim C1 as stated fails: the batting extractor raises ValueError on the empty runs
  cell, and the batting entries of team 1 after the cycle are the empty list it had
  written by then, not the entries of before the update.
\<close>

theorem batting_failure_counterexample:
  "fst (parse_batting_stats_body failing_document
          (parse_teams_and_scores sample_float failing_document
             (parse_match_info failing_document earlier_state))) = Some ValueError \<and>
   batting_stats (parse_html sample_float (Some failing_document) earlier_state) Team1 = Some [] \<and>
   batting_stats earlier_state Team1 =
     Some [\<lparr>bat_name = ''Gaikwad'', bat_runs = ''28'', bat_balls = ''9'', bat_fours = ''1'',
            bat_sixes = ''0'', bat_strike_rate = ''100.00'', bat_dismissal = ''not out''\<rparr>]"
proof -
  have "batting_stats (parse_html sample_float (Some failing_document) earlier_state) =
          batting_stats (parse_batting_stats failing_document failing_teams_state)"
    by (simp add: parse_html_data commentary_frame bowling_frame failing_teams)
  then have b: "batting_stats (parse_html sample_float (Some failing_document) earlier_state) Team1 = Some []"
    by (simp add: failing_batting parse_batting_stats_data)
  have f: "fst (parse_batting_stats_body failing_document
          (parse_teams_and_scores sample_float failing_document
             (parse_match_info failing_document earlier_state))) = Some ValueError"
    by (simp add: failing_teams failing_batting)
  have c: "batting_stats earlier_state Team1 =
     Some [\<lparr>bat_name = ''Gaikwad'', bat_runs = ''28'', bat_balls = ''9'', bat_fours = ''1'',
            bat_sixes = ''0'', bat_strike_rate = ''100.00'', bat_dismissal = ''not out''\<rparr>]"
    by (simp add: earlier_state_def)
  show ?thesis by (intro conjI f b c)
qed

lemma bad_score_teams:
  "parse_teams_and_scores_body sample_float bad_score_document earlier_state =
     (Some ValueError, earlier_state\<lparr>teams := [Team1 \<mapsto> new_team ''CSK'']\<rparr>)"
proof -
  have "teams_loop sample_float (zip [Team1, Team2] (team_sections bad_score_document)) (teams earlier_state) =
          (Some ValueError, [Team1 \<mapsto> new_team ''CSK''])"
    by (simp add: bad_score_document_def empty_document_def team_section_step_def split_score_def
      lower_def lower_char_def strip_def is_space_def earlier_state_def init_match_data_def)
  then show ?thesis by (simp add: parse_teams_and_scores_body_def)
qed

lemma two_tables_first:
  "cross_check (map row_tag [sample_batting_row ''Gaikwad'' ''30'' None]) ''0''
     (List.map_filter parse_batsman_row [sample_batting_row ''Gaikwad'' ''30'' None]) =
   Inr [sample_batsman ''Gaikwad'' ''30'' ''not out'' False]"
  by (simp add: cross_check_def py_int_def strip_def is_space_def digits_ok.simps is_digit_def
      digits_value_def List.map_filter_simps parse_batsman_row_def sample_batting_row_def
      lower_def lower_char_def Let_def sample_batsman_def)

lemma two_tables_second:
  "cross_check (map row_tag [sample_batting_row ''Rohit'' ''30'' None,
                             sample_batting_row ''Kishan'' [] None]) ''1''
     (List.map_filter parse_batsman_row [sample_batting_row ''Rohit'' ''30'' None,
                             sample_batting_row ''Kishan'' [] None]) = Inl ValueError"
  by (simp add: cross_check_def py_int_def strip_def is_space_def digits_ok.simps is_digit_def
      digits_value_def List.map_filter_simps parse_batsman_row_def sample_batting_row_def
      lower_def lower_char_def position_key_def runs_parse_def Let_def top_two_def)

lemma two_tables_batting:
  "parse_batting_stats_body two_tables_document second_innings_state =
     (Some ValueError,
      second_innings_state
        \<lparr>batting_stats := [Team1 \<mapsto> [entry_of (sample_batsman ''Gaikwad'' ''30'' ''not out'' False)],
                           Team2 \<mapsto> []],
         match_info := (match_info second_innings_state)\<lparr>innings_status := Some ''team1_complete''\<rparr>\<rparr>)"
proof -
  define first_table where "first_table =
          \<lparr>bat_header = Some ''BATTERS R B 4s 6s SR'',
            bat_rows = [sample_batting_row ''Gaikwad'' ''30'' None]\<rparr>"
  define second_table where "second_table =
           \<lparr>bat_header = Some ''BATTERS R B 4s 6s SR'',
            bat_rows = [sample_batting_row ''Rohit'' ''30'' None,
                        sample_batting_row ''Kishan'' [] None]\<rparr>"
  have o: "batting_order second_innings_state = (Team1, Team2)"
    by (simp add: batting_order_def Let_def lower_def second_innings_state_def init_match_data_def)
  have t: "find_batting_tables two_tables_document = [first_table, second_table]"
    by (simp add: find_batting_tables_def two_tables_document_def empty_document_def
        first_table_def second_table_def)
  have s: "team_get t_score [] (teams second_innings_state) Team1 = ''185/0''"
      "team_get t_wickets ''0'' (teams second_innings_state) Team1 = ''0''"
      "team_get t_overs [] (teams second_innings_state) Team1 = ''20.0''"
      "team_get t_score [] (teams second_innings_state) Team2 = ''45/1''"
      "team_get t_wickets ''0'' (teams second_innings_state) Team2 = ''1''"
    by (simp_all add: team_get_def second_innings_state_def sample_team_def)
  have h: "is_batting_table first_table" "is_batting_table second_table"
    by (simp_all add: is_batting_table_def first_table_def second_table_def)
  have n: "\<not> contains ''yet to bat'' (lower ''185/0'')" "\<not> contains ''yet to bat'' (lower ''45/1'')"
      "contains ''20'' ''20.0''" "key_name Team1 @ ''_complete'' = ''team1_complete''"
    by (simp_all add: lower_def lower_char_def key_name_def)
  have c1: "cross_check (map row_tag (bat_rows first_table)) ''0''
              (List.map_filter parse_batsman_row (bat_rows first_table)) =
            Inr [sample_batsman ''Gaikwad'' ''30'' ''not out'' False]"
    unfolding first_table_def using two_tables_first by simp
  have c2: "cross_check (map row_tag (bat_rows second_table)) ''1''
              (List.map_filter parse_batsman_row (bat_rows second_table)) = Inl ValueError"
    unfolding second_table_def using two_tables_second by simp
  have "batting_loop (teams second_innings_state) Team1 Team2 [first_table, second_table] 0
          Map.empty (match_info second_innings_state) =
        (Some ValueError,
         [Team1 \<mapsto> [entry_of (sample_batsman ''Gaikwad'' ''30'' ''not out'' False)], Team2 \<mapsto> []],
         (match_info second_innings_state)\<lparr>innings_status := Some ''team1_complete''\<rparr>)"
    by (simp add: h s n c1 c2 Let_def del: contains.simps)
  then show ?thesis
    by (simp add: parse_batting_stats_body_def o t)
qed

theorem extractor_failure_contained_witness:
  "parse_batting_stats_call failing_document failing_teams_state =
     (None, failing_teams_state\<lparr>batting_stats := [Team1 \<mapsto> []]\<rparr>) \<and>
   parse_html_call sample_float (Some failing_document) earlier_state =
     (None, parse_commentary failing_document
       (parse_bowling_stats failing_document (failing_teams_state\<lparr>batting_stats := [Team1 \<mapsto> []]\<rparr>))) \<and>
   parse_teams_and_scores_call sample_float bad_score_document earlier_state =
     (None, earlier_state\<lparr>teams := [Team1 \<mapsto> new_team ''CSK'']\<rparr>) \<and>
   parse_html_call sample_float (Some bad_score_document) earlier_state =
     (None, parse_commentary bad_score_document
       (parse_bowling_stats bad_score_document
         (parse_batting_stats bad_score_document (earlier_state\<lparr>teams := [Team1 \<mapsto> new_team ''CSK'']\<rparr>)))) \<and>
   parse_batting_stats_call two_tables_document second_innings_state =
     (None, second_innings_state
        \<lparr>batting_stats := [Team1 \<mapsto> [entry_of (sample_batsman ''Gaikwad'' ''30'' ''not out'' False)],
                           Team2 \<mapsto> []],
         match_info := (match_info second_innings_state)\<lparr>innings_status := Some ''team1_complete''\<rparr>\<rparr>) \<and>
   innings_status (match_info second_innings_state) = None"
proof -
  have m: "parse_match_info bad_score_document earlier_state = earlier_state"
    by (simp add: parse_match_info_def bad_score_document_def empty_document_def)
  have i: "innings_status (match_info second_innings_state) = None"
    by (simp add: second_innings_state_def init_match_data_def)
  show ?thesis
  using extractor_failure_contained [where ?float_ge_20.0 = sample_float and soup = failing_document
      and ?s2.0 = failing_teams_state and e = ValueError and st = earlier_state
      and ?s3.0 = "failing_teams_state\<lparr>batting_stats := [Team1 \<mapsto> []]\<rparr>"]
    extractor_failure_contained [where ?float_ge_20.0 = sample_float and soup = bad_score_document
      and ?s1.0 = earlier_state and e = ValueError and st = earlier_state
      and ?s2.0 = "earlier_state\<lparr>teams := [Team1 \<mapsto> new_team ''CSK'']\<rparr>"]
    extractor_failure_contained [where soup = two_tables_document
      and ?s2.0 = second_innings_state and e = ValueError
      and ?s3.0 = "second_innings_state
        \<lparr>batting_stats := [Team1 \<mapsto> [entry_of (sample_batsman ''Gaikwad'' ''30'' ''not out'' False)],
                           Team2 \<mapsto> []],
         match_info := (match_info second_innings_state)\<lparr>innings_status := Some ''team1_complete''\<rparr>\<rparr>"]
    failing_batting failing_teams bad_score_teams two_tables_batting m i
  by simp
qed

section \<open>Inferred dismissals\<close>

lemma parse_batsman_row_tag: "parse_batsman_row r = Some b \<Longrightarrow> b_row b = row_tag r"
  by (auto simp: parse_batsman_row_def Let_def split: option.splits if_splits prod.splits)

lemma map_filter_Cons:
  "List.map_filter f (x # xs) = (case f x of None \<Rightarrow> List.map_filter f xs | Some y \<Rightarrow> y # List.map_filter f xs)"
  by (simp add: List.map_filter_simps)

lemma parsed_tags:
  "b \<in> set (List.map_filter parse_batsman_row rows) \<Longrightarrow> b_row b \<in> set (map row_tag rows)"
proof -
  assume "b \<in> set (List.map_filter parse_batsman_row rows)"
  then obtain r where r: "r \<in> set rows" "parse_batsman_row r = Some b"
    by (auto simp: List.map_filter_def)
  then have "b_row b = row_tag r" by (intro parse_batsman_row_tag)
  then show ?thesis using r(1) by simp
qed

lemma position_key_Cons:
  assumes "b_row b \<in> set ts" "b_row b \<noteq> t"
  shows "position_key (t # ts) b = position_key ts b + 1"
  using assms by (simp add: position_key_def)

lemma position_key_nonneg: "0 \<le> position_key ts b"
  by (simp add: position_key_def)

lemma sorted_positions:
  "distinct (map row_tag rows) \<Longrightarrow>
     sorted (map (position_key (map row_tag rows)) (List.map_filter parse_batsman_row rows))"
proof (induction rows)
  case Nil
  then show ?case by (simp add: List.map_filter_simps)
next
  case (Cons r rows)
  let ?ts = "map row_tag rows"
  let ?bs = "List.map_filter parse_batsman_row rows"
  have shift: "map (position_key (map row_tag (r # rows))) ?bs = map (\<lambda>b. position_key ?ts b + 1) ?bs"
  proof (rule map_cong [OF refl])
    fix b assume b: "b \<in> set ?bs"
    then have "b_row b \<in> set ?ts" by (rule parsed_tags)
    moreover have "b_row b \<noteq> row_tag r" using calculation Cons.prems by auto
    ultimately show "position_key (map row_tag (r # rows)) b = position_key ?ts b + 1"
      using position_key_Cons [of b ?ts "row_tag r"] by simp
  qed
  have "sorted (map (position_key ?ts) ?bs)" using Cons by simp
  then have s: "sorted (map (\<lambda>b. position_key ?ts b + 1) ?bs)"
    by (simp add: sorted_map sorted_wrt_iff_nth_less)
  show ?case
  proof (cases "parse_batsman_row r")
    case None
    then have mf: "List.map_filter parse_batsman_row (r # rows) = ?bs" by simp
    show ?thesis unfolding mf shift by (rule s)
  next
    case (Some b0)
    then have mf: "List.map_filter parse_batsman_row (r # rows) = b0 # ?bs" by simp
    have k0: "position_key (map row_tag (r # rows)) b0 = 0"
      using parse_batsman_row_tag [OF Some] by (simp add: position_key_def)
    have "sorted (0 # map (\<lambda>b. position_key ?ts b + 1) ?bs)"
      using s position_key_nonneg [of ?ts] by (auto intro: add_nonneg_nonneg)
    moreover have "map (position_key (row_tag r # ?ts)) ?bs = map (\<lambda>b. position_key ?ts b + 1) ?bs"
      using shift by simp
    moreover have "position_key (row_tag r # ?ts) b0 = 0" using k0 by simp
    ultimately have "sorted (position_key (row_tag r # ?ts) b0 # map (position_key (row_tag r # ?ts)) ?bs)"
      by (simp only:)
    then show ?thesis unfolding mf list.map .
  qed
qed

lemma distinct_parsed:
  "distinct (map row_tag rows) \<Longrightarrow> distinct (List.map_filter parse_batsman_row rows)"
proof (induction rows)
  case Nil
  then show ?case by (simp add: List.map_filter_simps)
next
  case (Cons r rows)
  show ?case
  proof (cases "parse_batsman_row r")
    case None
    then show ?thesis using Cons by simp
  next
    case (Some b0)
    have "b0 \<notin> set (List.map_filter parse_batsman_row rows)"
    proof
      assume "b0 \<in> set (List.map_filter parse_batsman_row rows)"
      then have "b_row b0 \<in> set (map row_tag rows)" by (rule parsed_tags)
      then show False using parse_batsman_row_tag [OF Some] Cons.prems by auto
    qed
    then show ?thesis using Some Cons by simp
  qed
qed

lemma mark_out_count:
  "out < w \<Longrightarrow>
     length (filter b_is_out (mark_out cur w out xs)) =
       length (filter b_is_out xs) +
       min (nat (w - out)) (length (filter (\<lambda>b. \<not> b_is_out b \<and> b \<notin> set cur) xs))"
proof (induction xs arbitrary: out)
  case Nil
  then show ?case by simp
next
  case (Cons b xs)
  show ?case
  proof (cases "b_is_out b \<or> b \<in> set cur")
    case True
    then show ?thesis using Cons by auto
  next
    case False
    show ?thesis
    proof (cases "out + 1 \<ge> w")
      case True
      then have "nat (w - out) = 1" using Cons.prems by simp
      then show ?thesis using False True by simp
    next
      case False2: False
      then have "nat (w - out) = Suc (nat (w - (out + 1)))" by simp
      then show ?thesis using False False2 Cons.IH [of "out + 1"] by simp
    qed
  qed
qed

lemma mark_out_map:
  "out < w \<Longrightarrow> distinct xs \<Longrightarrow>
     mark_out cur w out xs =
       map (\<lambda>b. if b \<in> set (take (nat (w - out)) (filter (\<lambda>b. \<not> b_is_out b \<and> b \<notin> set cur) xs))
                then marked b else b) xs"
proof (induction xs arbitrary: out)
  case Nil
  then show ?case by simp
next
  case (Cons b xs)
  let ?el = "\<lambda>b. \<not> b_is_out b \<and> b \<notin> set cur"
  have notin: "b \<notin> set xs" using Cons.prems by simp
  show ?case
  proof (cases "?el b")
    case False
    have "b \<notin> set (take (nat (w - out)) (filter ?el xs))"
      using notin by (auto dest: in_set_takeD)
    then show ?thesis using False Cons by auto
  next
    case True
    show ?thesis
    proof (cases "out + 1 \<ge> w")
      case True2: True
      then have n: "nat (w - out) = 1" using Cons.prems by simp
      have "map (\<lambda>x. if x \<in> set (take 1 (b # filter ?el xs)) then marked x else x) xs = xs"
        using notin by (intro map_idI) auto
      then show ?thesis using True True2 n by (simp add: marked_def)
    next
      case False
      then have n: "nat (w - out) = Suc (nat (w - (out + 1)))" by simp
      have "map (\<lambda>x. if x \<in> set (b # take (nat (w - (out + 1))) (filter ?el xs)) then marked x else x) xs =
            map (\<lambda>x. if x \<in> set (take (nat (w - (out + 1))) (filter ?el xs)) then marked x else x) xs"
        using notin by (intro map_cong) auto
      then show ?thesis using True False n Cons.IH [of "out + 1"] Cons.prems
        by (simp add: marked_def)
    qed
  qed
qed

lemma cross_check_marks:
  assumes "distinct (map row_tag rows)"
    and "all_batsmen = List.map_filter parse_batsman_row rows"
    and "py_int wickets_text = Inr wickets_down"
    and "list_all runs_parse all_batsmen"
    and "int (length (filter b_is_out all_batsmen)) < wickets_down"
  shows "cross_check (map row_tag rows) wickets_text all_batsmen =
           Inr (mark_out (top_two all_batsmen) wickets_down (int (length (filter b_is_out all_batsmen)))
                  all_batsmen)"
proof -
  have "sort_key (position_key (map row_tag rows)) all_batsmen = all_batsmen"
    unfolding assms(2) by (intro sort_key_id_if_sorted sorted_positions assms(1))
  then show ?thesis using assms(3,4,5) by (simp add: cross_check_def Let_def)
qed

text \<open>
  Claim C3, as amended. For a batting table of distinct rows whose runs are integers and
  whose team has more wickets recorded than rows detected as out, the cross-check marks
  as out, with the dismissal "out", the first rows in table order that are neither out
  already nor one of the two rows of the highest runs, as many as the wickets exceed the
  rows that are out, or all such rows when there are fewer; every other row is as it
  was. For six rows with four rows out and 6 wickets, 6 rows are out at the end when
  neither row that is not out is one of the two of the highest runs.
\<close>

theorem inferred_dismissals:
  assumes "distinct (map row_tag rows)"
    and "all_batsmen = List.map_filter parse_batsman_row rows"
    and "py_int wickets_text = Inr wickets_down"
    and "list_all runs_parse all_batsmen"
    and "int (length (filter b_is_out all_batsmen)) < wickets_down"
  shows "\<exists>batsmen. cross_check (map row_tag rows) wickets_text all_batsmen = Inr batsmen \<and>
           batsmen =
             map (\<lambda>b. if b \<in> set (take (nat (wickets_down - int (length (filter b_is_out all_batsmen))))
                                       (eligible all_batsmen))
                      then marked b else b) all_batsmen \<and>
           length (filter b_is_out batsmen) =
             length (filter b_is_out all_batsmen) +
             min (nat (wickets_down - int (length (filter b_is_out all_batsmen))))
                 (length (eligible all_batsmen)) \<and>
           (length all_batsmen = 6 \<and> length (filter b_is_out all_batsmen) = 4 \<and> wickets_down = 6 \<and>
            length (eligible all_batsmen) = 2 \<longrightarrow> length (filter b_is_out batsmen) = 6)"
proof -
  let ?out = "int (length (filter b_is_out all_batsmen))"
  let ?res = "mark_out (top_two all_batsmen) wickets_down ?out all_batsmen"
  have c: "cross_check (map row_tag rows) wickets_text all_batsmen = Inr ?res"
    by (rule cross_check_marks [OF assms])
  have d: "distinct all_batsmen" unfolding assms(2) by (rule distinct_parsed [OF assms(1)])
  have m: "?res = map (\<lambda>b. if b \<in> set (take (nat (wickets_down - ?out)) (eligible all_batsmen))
                      then marked b else b) all_batsmen"
    using mark_out_map [OF assms(5) d, of "top_two all_batsmen"] by (simp add: eligible_def)
  have n: "length (filter b_is_out ?res) =
             length (filter b_is_out all_batsmen) +
             min (nat (wickets_down - ?out)) (length (eligible all_batsmen))"
    using mark_out_count [OF assms(5), of "top_two all_batsmen" all_batsmen] by (simp add: eligible_def)
  have six: "length (filter b_is_out ?res) = 6"
    if "length all_batsmen = 6 \<and> length (filter b_is_out all_batsmen) = 4 \<and> wickets_down = 6 \<and>
            length (eligible all_batsmen) = 2"
    using that n by simp
  show ?thesis using c m n six by (intro exI [of _ ?res]) blast
qed

lemma sample_py_int:
  "py_int ''72'' = Inr 72" "py_int ''45'' = Inr 45" "py_int ''10'' = Inr 10"
  "py_int ''5'' = Inr 5" "py_int ''3'' = Inr 3" "py_int ''1'' = Inr 1" "py_int ''6'' = Inr 6"
  by (simp_all add: py_int_def strip_def is_space_def is_digit_def digits_value_def)

lemma sample_runs:
  "runs_value (sample_batsman n ''72'' d out) = 72" "runs_value (sample_batsman n ''45'' d out) = 45"
  "runs_value (sample_batsman n ''10'' d out) = 10" "runs_value (sample_batsman n ''5'' d out) = 5"
  "runs_value (sample_batsman n ''3'' d out) = 3" "runs_value (sample_batsman n ''1'' d out) = 1"
  "runs_parse (sample_batsman n ''72'' d out)" "runs_parse (sample_batsman n ''45'' d out)"
  "runs_parse (sample_batsman n ''10'' d out)" "runs_parse (sample_batsman n ''5'' d out)"
  "runs_parse (sample_batsman n ''3'' d out)" "runs_parse (sample_batsman n ''1'' d out)"
  by (simp_all add: runs_value_def runs_parse_def sample_batsman_def sample_py_int)

lemma parsed_top_not_out:
  "List.map_filter parse_batsman_row six_rows_top_not_out =
     [sample_batsman ''Gaikwad'' ''72'' ''not out'' False,
      sample_batsman ''Conway'' ''45'' ''not out'' False,
      sample_batsman ''Rahane'' ''10'' ''c Kishan b Bumrah'' True,
      sample_batsman ''Dube'' ''5'' ''b Boult'' True,
      sample_batsman ''Jadeja'' ''3'' ''lbw b Chawla'' True,
      sample_batsman ''Dhoni'' ''1'' ''run out (Sharma)'' True]"
  by (simp add: six_rows_top_not_out_def parse_batsman_row_def sample_batting_row_def
      sample_batsman_def lower_def lower_char_def strip_def is_space_def Let_def)

lemma parsed_tail_not_out:
  "List.map_filter parse_batsman_row six_rows_tail_not_out =
     [sample_batsman ''Gaikwad'' ''72'' ''c Kishan b Bumrah'' True,
      sample_batsman ''Conway'' ''45'' ''b Boult'' True,
      sample_batsman ''Rahane'' ''10'' ''lbw b Chawla'' True,
      sample_batsman ''Dube'' ''5'' ''run out (Sharma)'' True,
      sample_batsman ''Jadeja'' ''3'' ''not out'' False,
      sample_batsman ''Dhoni'' ''1'' ''not out'' False]"
  by (simp add: six_rows_tail_not_out_def parse_batsman_row_def sample_batting_row_def
      sample_batsman_def lower_def lower_char_def strip_def is_space_def Let_def)

lemma distinct_sample_rows:
  "distinct (map row_tag six_rows_top_not_out)" "distinct (map row_tag six_rows_tail_not_out)"
  by (simp_all add: six_rows_top_not_out_def six_rows_tail_not_out_def sample_batting_row_def)

lemma top_two_samples:
  "top_two (List.map_filter parse_batsman_row six_rows_top_not_out) =
     [sample_batsman ''Gaikwad'' ''72'' ''not out'' False,
      sample_batsman ''Conway'' ''45'' ''not out'' False]"
  "top_two (List.map_filter parse_batsman_row six_rows_tail_not_out) =
     [sample_batsman ''Gaikwad'' ''72'' ''c Kishan b Bumrah'' True,
      sample_batsman ''Conway'' ''45'' ''b Boult'' True]"
  by (simp_all add: top_two_def parsed_top_not_out parsed_tail_not_out sample_runs)

lemma out_samples:
  "b_is_out (sample_batsman n r d out) = out"
  by (simp add: sample_batsman_def)

text \<open>
  Claim C3 as stated fails: with six rows, four rows out and 6 wickets, the two rows that
  are not out have the highest runs and are skipped, and 4 rows are out at the end.
\<close>

theorem six_rows_counterexample:
  "length six_rows_top_not_out = 6 \<and>
   length (filter b_is_out (List.map_filter parse_batsman_row six_rows_top_not_out)) = 4 \<and>
   py_int ''6'' = Inr 6 \<and>
   cross_check (map row_tag six_rows_top_not_out) ''6''
       (List.map_filter parse_batsman_row six_rows_top_not_out) =
     Inr (List.map_filter parse_batsman_row six_rows_top_not_out)"
proof -
  have l: "length six_rows_top_not_out = 6" by (simp add: six_rows_top_not_out_def)
  have o: "length (filter b_is_out (List.map_filter parse_batsman_row six_rows_top_not_out)) = 4"
    by (simp add: parsed_top_not_out out_samples)
  have r: "list_all runs_parse (List.map_filter parse_batsman_row six_rows_top_not_out)"
    by (simp add: parsed_top_not_out sample_runs)
  have "cross_check (map row_tag six_rows_top_not_out) ''6''
          (List.map_filter parse_batsman_row six_rows_top_not_out) =
        Inr (mark_out (top_two (List.map_filter parse_batsman_row six_rows_top_not_out)) 6 4
               (List.map_filter parse_batsman_row six_rows_top_not_out))"
    using cross_check_marks [OF distinct_sample_rows(1) refl sample_py_int(7) r] o by simp
  also have "mark_out (top_two (List.map_filter parse_batsman_row six_rows_top_not_out)) 6 4
               (List.map_filter parse_batsman_row six_rows_top_not_out) =
             List.map_filter parse_batsman_row six_rows_top_not_out"
    unfolding top_two_samples unfolding parsed_top_not_out by (simp add: out_samples)
  finally show ?thesis using l o sample_py_int(7) by simp
qed

theorem inferred_dismissals_witness:
  "\<exists>batsmen. cross_check (map row_tag six_rows_tail_not_out) ''6''
        (List.map_filter parse_batsman_row six_rows_tail_not_out) = Inr batsmen \<and>
      length (filter b_is_out batsmen) = 6"
proof -
  have o: "length (filter b_is_out (List.map_filter parse_batsman_row six_rows_tail_not_out)) = 4"
    by (simp add: parsed_tail_not_out out_samples)
  have r: "list_all runs_parse (List.map_filter parse_batsman_row six_rows_tail_not_out)"
    by (simp add: parsed_tail_not_out sample_runs)
  have l: "length (List.map_filter parse_batsman_row six_rows_tail_not_out) = 6"
    by (simp add: parsed_tail_not_out)
  have e: "length (eligible (List.map_filter parse_batsman_row six_rows_tail_not_out)) = 2"
    unfolding eligible_def top_two_samples unfolding parsed_tail_not_out
    by (simp add: out_samples sample_batsman_def)
  from inferred_dismissals [OF distinct_sample_rows(2) refl sample_py_int(7) r] o l e
  show ?thesis by auto
qed

section \<open>A second extraction from the same document\<close>

lemma won_checks_entry:
  "won_checks k sec tm = (case entry_won sec (tm k) of (e, entry) \<Rightarrow> (e, tm(k := entry)))"
  by (cases "tm k") (auto simp: won_checks_def entry_won_def set_won_def)

lemma team_section_step_entry:
  "team_section_step fl k sec tm = (case entry_step fl sec (tm k) of (e, entry) \<Rightarrow> (e, tm(k := entry)))"
proof (cases "name_elem sec")
  case None
  show ?thesis
  proof (cases "tm k")
    case N: None
    then show ?thesis using None
      by (auto simp: team_section_step_def entry_step_def won_checks_entry Let_def
          split: option.splits sum.splits prod.splits)
  next
    case (Some td)
    then show ?thesis using None
      by (auto simp: team_section_step_def entry_step_def won_checks_entry Let_def
          split: option.splits sum.splits prod.splits)
  qed
next
  case (Some ne)
  then show ?thesis
    by (auto simp: team_section_step_def entry_step_def won_checks_entry Let_def
        split: option.splits sum.splits prod.splits)
qed

lemma entry_won_idem:
  "entry_won sec x = (e, y) \<Longrightarrow> entry_won sec y = (e, y)"
  by (auto simp: entry_won_def split: if_splits option.splits)

lemma entry_step_idem:
  assumes "entry_step fl sec x = (e, y)"
  shows "entry_step fl sec y = (e, y)"
proof (cases "name_elem sec")
  case (Some ne)
  then have "entry_step fl sec y = entry_step fl sec x"
    by (simp add: entry_step_def)
  then show ?thesis using assms by simp
next
  case None
  then show ?thesis using assms
    by (auto simp: entry_step_def entry_won_def Let_def
        split: option.splits sum.splits prod.splits if_splits)
qed

lemma teams_loop_idem:
  "snd (teams_loop fl (zip [Team1, Team2] secs) (snd (teams_loop fl (zip [Team1, Team2] secs) tm))) =
     snd (teams_loop fl (zip [Team1, Team2] secs) tm)"
proof (cases secs)
  case Nil
  then show ?thesis by simp
next
  case (Cons a rest)
  obtain e1 y1 where a: "entry_step fl a (tm Team1) = (e1, y1)"
    by (cases "entry_step fl a (tm Team1)")
  have a': "entry_step fl a y1 = (e1, y1)" by (rule entry_step_idem [OF a])
  show ?thesis
  proof (cases rest)
    case Nil
    show ?thesis using Cons Nil a a'
      by (cases e1) (simp_all add: team_section_step_entry)
  next
    case C2: (Cons b rest2)
    obtain e2 y2 where b: "entry_step fl b (tm Team2) = (e2, y2)"
      by (cases "entry_step fl b (tm Team2)")
    have b': "entry_step fl b y2 = (e2, y2)" by (rule entry_step_idem [OF b])
    show ?thesis
    proof (cases e1)
      case None
      show ?thesis using Cons C2 a a' b b' None
        by (cases e2) (simp_all add: team_section_step_entry fun_upd_twist)
    next
      case (Some err)
      then show ?thesis using Cons C2 a a'
        by (simp add: team_section_step_entry)
    qed
  qed
qed

lemma parse_teams_idem:
  assumes "teams s = teams (parse_teams_and_scores fl soup s0)"
  shows "parse_teams_and_scores fl soup s = s"
proof -
  have t: "teams (parse_teams_and_scores fl soup s0) =
             snd (teams_loop fl (zip [Team1, Team2] (team_sections soup)) (teams s0))"
    by (simp add: parse_teams_and_scores_data parse_teams_and_scores_body_def split: prod.splits)
  have "teams (parse_teams_and_scores fl soup s) =
          snd (teams_loop fl (zip [Team1, Team2] (team_sections soup)) (teams s))"
    by (simp add: parse_teams_and_scores_data parse_teams_and_scores_body_def split: prod.splits)
  then have "teams (parse_teams_and_scores fl soup s) = teams s"
    unfolding assms t by (simp add: teams_loop_idem)
  then show ?thesis
    by (intro match_state.equality) (simp_all add: teams_frame)
qed

lemma parse_match_info_idem:
  assumes "match_info s = (match_info (parse_match_info soup s0))\<lparr>innings_status := v\<rparr>"
  shows "parse_match_info soup s = s"
proof -
  have "match_info (parse_match_info soup s) = match_info s"
    unfolding assms parse_match_info_def Let_def
    by (simp add: assms split: option.splits prod.splits)
  then show ?thesis
    by (intro match_state.equality) (simp_all add: match_info_frame)
qed

lemma parse_commentary_idem:
  "parse_commentary soup (parse_commentary soup s) = parse_commentary soup s"
  by (simp add: parse_commentary_def Let_def)

text \<open>The batting loop changes the match information in its innings status only, and in one way for every match information.\<close>

lemma batting_loop_info:
  "\<exists>e b v. \<forall>mi. batting_loop tm f s tables n bs mi =
      (e, b, mi\<lparr>innings_status := (case v of None \<Rightarrow> innings_status mi | Some x \<Rightarrow> Some x)\<rparr>)"
proof (induction tables arbitrary: n bs)
  case Nil
  have "\<forall>mi. batting_loop tm f s [] n bs mi =
      (None, bs, mi\<lparr>innings_status := (case None of None \<Rightarrow> innings_status mi | Some x \<Rightarrow> Some x)\<rparr>)"
    by simp
  then show ?case by blast
next
  case (Cons table tables)
  define team where "team = (if n = 0 then f else s)"
  show ?case
  proof (cases "\<not> is_batting_table table \<or> contains ''yet to bat'' (lower (team_get t_score [] tm team))")
    case True
    obtain e b v where r: "\<forall>mi. batting_loop tm f s tables n bs mi =
      (e, b, mi\<lparr>innings_status := (case v of None \<Rightarrow> innings_status mi | Some x \<Rightarrow> Some x)\<rparr>)"
      using Cons.IH [of n bs] by blast
    have "\<forall>mi. batting_loop tm f s (table # tables) n bs mi = batting_loop tm f s tables n bs mi"
      using True by (auto simp: team_def Let_def)
    then show ?thesis using r by auto
  next
    case False
    show ?thesis
    proof (cases "cross_check (map row_tag (bat_rows table)) (team_get t_wickets ''0'' tm team)
                    (List.map_filter parse_batsman_row (bat_rows table))")
      case (Inl err)
      have "\<forall>mi. batting_loop tm f s (table # tables) n bs mi =
        (Some err, bs(team \<mapsto> []), mi\<lparr>innings_status := (case None of None \<Rightarrow> innings_status mi | Some x \<Rightarrow> Some x)\<rparr>)"
        using False Inl by (simp add: team_def [symmetric] Let_def)
      then show ?thesis by blast
    next
      case (Inr batsmen)
      define n1 where "n1 = (if batsmen \<noteq> [] then n + 1 else n)"
      define bs2 where "bs2 = bs(team \<mapsto> [], team \<mapsto> map entry_of batsmen)"
      obtain e b v where r: "\<forall>mi. batting_loop tm f s tables n1 bs2 mi =
        (e, b, mi\<lparr>innings_status := (case v of None \<Rightarrow> innings_status mi | Some x \<Rightarrow> Some x)\<rparr>)"
        using Cons.IH [of n1 bs2] by blast
      show ?thesis
      proof (cases "team_get t_overs [] tm team \<noteq> [] \<and> contains ''20'' (team_get t_overs [] tm team)")
        case True
        have "\<forall>mi. batting_loop tm f s (table # tables) n bs mi =
          batting_loop tm f s tables n1 bs2 (mi\<lparr>innings_status := Some (key_name team @ ''_complete'')\<rparr>)"
          using False Inr True by (simp add: team_def [symmetric] Let_def n1_def bs2_def)
        then have "\<forall>mi. batting_loop tm f s (table # tables) n bs mi =
          (e, b, mi\<lparr>innings_status := (case (case v of None \<Rightarrow> Some (key_name team @ ''_complete'') | Some x \<Rightarrow> Some x) of
                                         None \<Rightarrow> innings_status mi | Some x \<Rightarrow> Some x)\<rparr>)"
          using r by (cases v) simp_all
        then show ?thesis by blast
      next
        case F2: False
        have "\<forall>mi. batting_loop tm f s (table # tables) n bs mi = batting_loop tm f s tables n1 bs2 mi"
          using False Inr F2 by (auto simp: team_def [symmetric] Let_def n1_def bs2_def)
        then show ?thesis using r by auto
      qed
    qed
  qed
qed

lemma batting_order_cong:
  "teams a = teams b \<Longrightarrow> status (match_info a) = status (match_info b) \<Longrightarrow>
     batting_order a = batting_order b"
  by (simp add: batting_order_def)

lemma parse_batting_idem:
  assumes "teams s = teams s2" "s3 = parse_batting_stats soup s2"
    and "batting_stats s = batting_stats s3" "match_info s = match_info s3"
  shows "parse_batting_stats soup s = s"
proof -
  obtain f g where o: "batting_order s2 = (f, g)" by (cases "batting_order s2")
  obtain e b v where r: "\<forall>mi. batting_loop (teams s2) f g (find_batting_tables soup) 0 Map.empty mi =
      (e, b, mi\<lparr>innings_status := (case v of None \<Rightarrow> innings_status mi | Some x \<Rightarrow> Some x)\<rparr>)"
    using batting_loop_info [of "teams s2" f g "find_batting_tables soup" 0 Map.empty] by blast
  have s3: "batting_stats s3 = b"
      "match_info s3 = (match_info s2)\<lparr>innings_status :=
          (case v of None \<Rightarrow> innings_status (match_info s2) | Some x \<Rightarrow> Some x)\<rparr>"
    using r by (simp_all add: assms(2) parse_batting_stats_data parse_batting_stats_body_def o)
  have st: "status (match_info s) = status (match_info s2)"
    by (simp add: assms(4) s3)
  have o': "batting_order s = (f, g)"
    using batting_order_cong [OF assms(1) st] o by simp
  have "batting_stats (parse_batting_stats soup s) = b"
    using r by (simp add: parse_batting_stats_data parse_batting_stats_body_def o' assms(1))
  moreover have "match_info (parse_batting_stats soup s) = match_info s"
    using r by (cases v) (simp_all add: parse_batting_stats_data parse_batting_stats_body_def o' assms(1,4) s3)
  ultimately show ?thesis
    by (intro match_state.equality) (simp_all add: batting_frame assms(3) s3)
qed

lemma parse_batting_info:
  "match_info (parse_batting_stats soup s) =
     (match_info s)\<lparr>innings_status := innings_status (match_info (parse_batting_stats soup s))\<rparr>"
proof -
  obtain f g where o: "batting_order s = (f, g)" by (cases "batting_order s")
  obtain e b v where r: "\<forall>mi. batting_loop (teams s) f g (find_batting_tables soup) 0 Map.empty mi =
      (e, b, mi\<lparr>innings_status := (case v of None \<Rightarrow> innings_status mi | Some x \<Rightarrow> Some x)\<rparr>)"
    using batting_loop_info [of "teams s" f g "find_batting_tables soup" 0 Map.empty] by blast
  show ?thesis
    using r by (simp add: parse_batting_stats_data parse_batting_stats_body_def o)
qed

lemma parse_html_idem:
  "parse_html fl (Some soup) (parse_html fl (Some soup) st) = parse_html fl (Some soup) st"
proof -
  define s1 where "s1 = parse_match_info soup st"
  define s2 where "s2 = parse_teams_and_scores fl soup s1"
  define s3 where "s3 = parse_batting_stats soup s2"
  define s4 where "s4 = parse_bowling_stats soup s3"
  define s5 where "s5 = parse_commentary soup s4"
  have p: "parse_html fl (Some soup) st = s5"
    by (simp add: parse_html_data s1_def s2_def s3_def s4_def s5_def)
  have mi: "match_info s5 = match_info s3"
    by (simp add: s5_def s4_def commentary_frame bowling_frame)
  have tm: "teams s5 = teams s2"
    by (simp add: s5_def s4_def s3_def commentary_frame bowling_frame batting_frame)
  have bt: "batting_stats s5 = batting_stats s3"
    by (simp add: s5_def s4_def commentary_frame bowling_frame)
  have bw: "bowling_stats s5 = bowling_stats s4"
    by (simp add: s5_def commentary_frame)
  have "match_info s3 = (match_info s2)\<lparr>innings_status := innings_status (match_info s3)\<rparr>"
    unfolding s3_def by (rule parse_batting_info)
  then have "match_info s5 = (match_info (parse_match_info soup st))\<lparr>innings_status := innings_status (match_info s3)\<rparr>"
    by (simp add: mi s2_def s1_def teams_frame)
  then have m: "parse_match_info soup s5 = s5" by (rule parse_match_info_idem)
  have t: "parse_teams_and_scores fl soup s5 = s5"
    by (rule parse_teams_idem [of s5 fl soup s1]) (simp add: tm s2_def)
  have b: "parse_batting_stats soup s5 = s5"
    by (rule parse_batting_idem [OF tm s3_def bt mi])
  have "bowling_stats (parse_bowling_stats soup s5) = bowling_stats (parse_bowling_stats soup s3)"
    by (rule parse_bowling_stats_cong) (simp_all add: mi bt tm s3_def batting_frame)
  then have w: "parse_bowling_stats soup s5 = s5"
    using parse_bowling_stats_frame_eq [of soup s5] by (simp add: bw s4_def)
  have c: "parse_commentary soup s5 = s5"
    unfolding s5_def by (rule parse_commentary_idem)
  have "parse_html fl (Some soup) s5 = s5"
    by (simp add: parse_html_data m t b w c)
  then show ?thesis by (simp add: p)
qed

lemma validate_data_stamp:
  "validate_data (s\<lparr>last_updated := t\<rparr>) = (validate_data s)\<lparr>last_updated := t\<rparr>"
  by (simp add: validate_data_def)

lemma parse_html_validate:
  "parse_html fl (Some soup) (validate_data s) = parse_html fl (Some soup) s"
proof -
  have "validate_data s =
          s\<lparr>batting_stats := (\<lambda>k. map_option (map fix_name) (batting_stats s k)),
            bowling_stats := (\<lambda>k. map_option remove_duplicates (bowling_stats s k))\<rparr>"
    by (simp add: validate_data_def)
  then show ?thesis by (simp only: parse_html_stats)
qed

text \<open>
  Claim C8. The extraction pass on a document, run again on the match data it has left,
  leaves them as they are; and a second update on the same document gives the match
  data of the first update, but for the time of the update.
\<close>

theorem extraction_idempotent:
  "parse_html float_ge_20 (Some soup) (parse_html float_ge_20 (Some soup) st) =
     parse_html float_ge_20 (Some soup) st \<and>
   snd (update float_ge_20 now2 (Some soup) (snd (update float_ge_20 now1 (Some soup) st))) =
     (snd (update float_ge_20 now1 (Some soup) st))\<lparr>last_updated := now2\<rparr>"
proof
  show "parse_html float_ge_20 (Some soup) (parse_html float_ge_20 (Some soup) st) =
     parse_html float_ge_20 (Some soup) st"
    by (rule parse_html_idem)
  have "parse_html float_ge_20 (Some soup)
          (validate_data ((parse_html float_ge_20 (Some soup) st)\<lparr>last_updated := now1\<rparr>)) =
        (parse_html float_ge_20 (Some soup) st)\<lparr>last_updated := now1\<rparr>"
    by (simp add: parse_html_validate parse_html_stamp parse_html_idem)
  then show "snd (update float_ge_20 now2 (Some soup) (snd (update float_ge_20 now1 (Some soup) st))) =
     (snd (update float_ge_20 now1 (Some soup) st))\<lparr>last_updated := now2\<rparr>"
    by (simp add: update_data Let_def validate_data_stamp)
qed

end
